theory Spec2Isabelle
  imports Main "HOL-Library.Sublist" "HOL-Library.Monad_Syntax"
begin

section \<open>Strings\<close>

text \<open>
  A string is the list of its UTF-16 code units, the units that \<^verbatim>\<open>length\<close>, \<^verbatim>\<open>charAt\<close>,
  \<^verbatim>\<open>slice\<close>, \<^verbatim>\<open>split\<close> and \<^verbatim>\<open>includes\<close> count and compare. A \<open>char\<close> is a code unit
  below 256, so the strings of the model are the texts of Latin-1 (U+0000 to U+00FF), and
  \<open>CHR 0xDC\<close> is U+00DC. A text with a code unit above 255 is no string of the model.

  \<^verbatim>\<open>toLowerCase\<close> on such a text: the letters A..Z, and U+00C0..U+00DE without the sign
  U+00D7, go to the code unit 32 above; every other code unit stays.
\<close>

definition toLowerCase_char :: "char \<Rightarrow> char" where
  "toLowerCase_char c =
     (let n = (of_char c :: nat) in
      if (65 \<le> n \<and> n \<le> 90) \<or> (192 \<le> n \<and> n \<le> 214) \<or> (216 \<le> n \<and> n \<le> 222)
      then char_of (n + 32) else c)"

definition toLowerCase :: "string \<Rightarrow> string" where
  "toLowerCase s = map toLowerCase_char s"

text \<open>
  \<^verbatim>\<open>toUpperCase\<close>: the letters a..z, and U+00E0..U+00FE without the sign U+00F7, go to
  the code unit 32 below, and U+00DF goes to the two letters \<^verbatim>\<open>SS\<close>. The upper case of
  U+00B5 is U+039C and that of U+00FF is U+0178, above 255: no string of the model is the
  upper case of a text with one of these two, \<open>toUpperCase\<close> keeps them, and what is
  stated of an upper case is stated of texts that \<open>upper_case_below_256\<close>.
\<close>

definition toUpperCase_char :: "char \<Rightarrow> string" where
  "toUpperCase_char c =
     (let n = (of_char c :: nat) in
      if (97 \<le> n \<and> n \<le> 122) \<or> (224 \<le> n \<and> n \<le> 246) \<or> (248 \<le> n \<and> n \<le> 254)
      then [char_of (n - 32)]
      else if n = 223 then ''SS'' else [c])"

definition toUpperCase :: "string \<Rightarrow> string" where
  "toUpperCase s = concat (map toUpperCase_char s)"

definition upper_case_below_256 :: "string \<Rightarrow> bool" where
  "upper_case_below_256 s = (CHR 0xB5 \<notin> set s \<and> CHR 0xFF \<notin> set s)"

text \<open>
  \<^verbatim>\<open>s.split(" ")\<close>: the pieces of \<open>s\<close> between consecutive space characters, empty
  pieces included; \<open>acc\<close> holds the current piece, reversed.
\<close>

fun split_from :: "string \<Rightarrow> string \<Rightarrow> string list" where
  "split_from acc [] = [rev acc]"
| "split_from acc (c # s) =
     (if c = CHR '' '' then rev acc # split_from [] s else split_from (c # acc) s)"

definition split_space :: "string \<Rightarrow> string list" where
  "split_space s = split_from [] s"

text \<open>\<^verbatim>\<open>ws.join(" ")\<close>, the inverse of the split.\<close>

fun join_space :: "string list \<Rightarrow> string" where
  "join_space [] = []"
| "join_space [w] = w"
| "join_space (w # v # ws) = w @ CHR '' '' # join_space (v # ws)"

text \<open>\<^verbatim>\<open>s.includes(q)\<close>: \<open>q\<close> starts at some position of \<open>s\<close>.\<close>

fun String_includes :: "string \<Rightarrow> string \<Rightarrow> bool" where
  "String_includes [] q = (q = [])"
| "String_includes (c # s) q = (prefix q (c # s) \<or> String_includes s q)"

text \<open>\<^verbatim>\<open>xs.includes(x)\<close> on an array.\<close>

definition Array_includes :: "'a list \<Rightarrow> 'a \<Rightarrow> bool" where
  "Array_includes xs x = (x \<in> set xs)"

text \<open>\<^verbatim>\<open>s.charAt(i)\<close> is the empty string out of range; \<^verbatim>\<open>s.slice(1)\<close> drops one character.\<close>

definition charAt :: "string \<Rightarrow> nat \<Rightarrow> string" where
  "charAt s i = (if i < length s then [s ! i] else [])"

definition slice :: "string \<Rightarrow> nat \<Rightarrow> string" where
  "slice s i = drop i s"

text \<open>
  \<^verbatim>\<open>s.trim()\<close> removes white space and line terminators at both ends: below 256 these
  are the code units 9 to 13, the space and the no-break space U+00A0.
\<close>

definition isWhiteSpace :: "char \<Rightarrow> bool" where
  "isWhiteSpace c = (let n = (of_char c :: nat) in (9 \<le> n \<and> n \<le> 13) \<or> n = 32 \<or> n = 160)"

definition trim :: "string \<Rightarrow> string" where
  "trim s = rev (dropWhile isWhiteSpace (rev (dropWhile isWhiteSpace s)))"

section \<open>Data model\<close>

datatype role = UserRole | AssistantRole

record Message =
  id_Message :: string
  content :: string
  role :: role
  timestamp :: int
  isTyping_Message :: "bool option"

record ChatSession =
  id_ChatSession :: string
  title :: string
  messages :: "Message list"
  createdAt :: int
  updatedAt :: int

text \<open>
  A \<^verbatim>\<open>Date\<close> is its time value, the milliseconds since the epoch. An optional property
  is an \<open>option\<close>.
\<close>

section \<open>Title generation\<close>

definition stoplist :: "string list" where
  "stoplist = [''trip'', ''plan'', ''travel'', ''visit'', ''going'', ''want'', ''like'', ''help'']"

text \<open>
  \<^verbatim>\<open>generateSessionTitle\<close>; \<open>localeDate\<close> is what
  \<^verbatim>\<open>new Date().toLocaleDateString()\<close> gives at the call.
\<close>

definition generateSessionTitle :: "string \<Rightarrow> string \<Rightarrow> string" where
  "generateSessionTitle localeDate firstMessage =
     (let words = split_space (toLowerCase firstMessage);
          destinations =
            filter (\<lambda>word. length word > 3 \<and> \<not> Array_includes stoplist word) words
      in if length destinations > 0
         then ''Trip to '' @ toUpperCase (charAt (destinations ! 0) 0) @ slice (destinations ! 0) 1
         else ''Trip Plan - '' @ localeDate)"

text \<open>
  The title as the specification words it: the tokens are the pieces of the message
  between white space.
\<close>

fun tokens_from :: "(char \<Rightarrow> bool) \<Rightarrow> string \<Rightarrow> string \<Rightarrow> string list" where
  "tokens_from sep acc [] = [rev acc]"
| "tokens_from sep acc (c # s) =
     (if sep c then rev acc # tokens_from sep [] s else tokens_from sep (c # acc) s)"

definition capitalized :: "string \<Rightarrow> string" where
  "capitalized w = (case w of [] \<Rightarrow> [] | c # cs \<Rightarrow> toUpperCase_char c @ cs)"

definition title_of_tokens :: "string \<Rightarrow> string list \<Rightarrow> string" where
  "title_of_tokens localeDate ws =
     (case List.find (\<lambda>w. \<not> length w \<le> 3 \<and> w \<notin> set stoplist) ws of
        Some w \<Rightarrow> ''Trip to '' @ capitalized w
      | None \<Rightarrow> ''Trip Plan - '' @ localeDate)"

definition title_split_on_whitespace :: "string \<Rightarrow> string \<Rightarrow> string" where
  "title_split_on_whitespace localeDate firstMessage =
     title_of_tokens localeDate (tokens_from isWhiteSpace [] (toLowerCase firstMessage))"

definition title_split_on_space :: "string \<Rightarrow> string \<Rightarrow> string" where
  "title_split_on_space localeDate firstMessage =
     title_of_tokens localeDate (tokens_from (\<lambda>c. c = CHR '' '') [] (toLowerCase firstMessage))"

section \<open>Trip-plan detection\<close>

text \<open>The flag \<^verbatim>\<open>containsTripPlan\<close> of a message bubble.\<close>

definition containsTripPlan :: "Message \<Rightarrow> bool" where
  "containsTripPlan message =
     (let isUser = (role message = UserRole) in
      \<not> isUser \<and>
      (String_includes (toLowerCase (content message)) ''itinerary'' \<or>
       String_includes (toLowerCase (content message)) ''day 1'' \<or>
       String_includes (toLowerCase (content message)) ''schedule'' \<or>
       String_includes (toLowerCase (content message)) ''trip plan'' \<or>
       (String_includes (content message) ''## Day'' \<and>
        String_includes (content message) ''**Start Date:**'')))"

section \<open>The platform\<close>

text \<open>
  Web storage holds texts. A stored text is kept as the document \<^verbatim>\<open>JSON.parse\<close> reads
  from it (\<open>Json_text\<close>), or as the text itself when \<^verbatim>\<open>JSON.parse\<close> throws on it
  (\<open>Other_text\<close>, the empty text among them); \<^verbatim>\<open>JSON.stringify\<close> writes the text of a
  document. An object is the list of its properties, a key at most once, read with
  \<open>map_of\<close>. No document of the application holds a number; \<open>JNum\<close> stands for the
  integral ones of foreign documents.
\<close>

datatype json =
    JNull
  | JBool bool
  | JNum int
  | JStr string
  | JArr "json list"
  | JObj "(string \<times> json) list"

datatype stored = Json_text json | Other_text string

type_synonym storage = "string \<rightharpoonup> stored"

text \<open>A stored text is truthy unless it is absent or empty.\<close>

definition truthy :: "stored option \<Rightarrow> bool" where
  "truthy v = (case v of None \<Rightarrow> False | Some (Other_text s) \<Rightarrow> s \<noteq> [] | Some (Json_text j) \<Rightarrow> True)"

text \<open>The request body of \<^verbatim>\<open>POST /api/chat\<close> and the token of its bearer header.\<close>

record request =
  message :: string
  session_id :: string
  history :: "(role \<times> string) list"
  bearer :: "stored option"

text \<open>
  What \<^verbatim>\<open>fetch\<close> and \<^verbatim>\<open>response.json()\<close> give: the call is rejected, or a response comes
  with its \<^verbatim>\<open>ok\<close> flag and, when its body is JSON, the text \<^verbatim>\<open>data.response\<close>.
\<close>

datatype fetch_result = Rejected | Response bool "string option"

text \<open>
  The environment of one call. \<open>now P k\<close> is the clock reading at the \<open>k\<close>-th place of
  the chat context's source text that reads the clock (\<^verbatim>\<open>Date.now()\<close>, \<^verbatim>\<open>new Date()\<close>),
  counted from 0.
\<close>

record platform =
  now :: "nat \<Rightarrow> int"
  toLocaleDateString :: "int \<Rightarrow> string"
  fetch :: "request \<Rightarrow> fetch_result"

text \<open>The decimal text of an integral number, as a template literal renders it.\<close>

function digits_of :: "int \<Rightarrow> string" where
  "digits_of n =
     (if n < 10 then [''0123456789'' ! nat n]
      else digits_of (n div 10) @ [''0123456789'' ! nat (n mod 10)])"
  by pat_completeness auto
termination
  by (relation "measure nat") auto

declare digits_of.simps [simp del]

definition String_of_int :: "int \<Rightarrow> string" where
  "String_of_int i = (if i < 0 then CHR ''-'' # digits_of (- i) else digits_of i)"

section \<open>Dates\<close>

text \<open>
  A \<^verbatim>\<open>Date\<close> is its time value, the milliseconds since the epoch, at most
  8640000000000000 in absolute value. \<^verbatim>\<open>toISOString\<close> is the one of ECMAScript: the civil
  date of the day of the time value and the text \<^verbatim>\<open>YYYY-MM-DDTHH:mm:ss.sssZ\<close>, the year
  with a sign and six digits outside 0..9999. \<open>Date_parse\<close> reads the texts of this
  format, those that \<^verbatim>\<open>toISOString\<close> writes; a text of the format whose number is
  beyond the time values is no date. For any other text it is \<open>None\<close>: the model does not
  say what \<^verbatim>\<open>Date.parse\<close> makes of it, \<^verbatim>\<open>NaN\<close> or a time value read in another format.
\<close>

primrec pad :: "nat \<Rightarrow> int \<Rightarrow> string" where
  "pad 0 n = []"
| "pad (Suc w) n = pad w (n div 10) @ [''0123456789'' ! nat (n mod 10)]"

text \<open>
  The civil date of a day number, in years that begin on 1 March: eras of 400 years and
  146097 days, centuries of 36524 days with one more in the last, cycles of four years
  and 1461 days, years of 365 days with one more in the last.
\<close>

definition day_of_era :: "int \<Rightarrow> int" where
  "day_of_era z = (z + 719468) mod 146097"

definition century_of_era :: "int \<Rightarrow> int" where
  "century_of_era d = min 3 (d div 36524)"

definition day_of_century :: "int \<Rightarrow> int" where
  "day_of_century d = d - 36524 * century_of_era d"

definition year_of_century :: "int \<Rightarrow> int" where
  "year_of_century d = 4 * (d div 1461) + min 3 (d mod 1461 div 365)"

definition day_of_year :: "int \<Rightarrow> int" where
  "day_of_year d = d mod 1461 - 365 * min 3 (d mod 1461 div 365)"

definition year_of_era :: "int \<Rightarrow> int" where
  "year_of_era d = 100 * century_of_era d + year_of_century (day_of_century d)"

definition month_index :: "int \<Rightarrow> int" where
  "month_index doy = (5 * doy + 2) div 153"

definition month_of_day :: "int \<Rightarrow> int" where
  "month_of_day z =
     (if month_index (day_of_year (day_of_century (day_of_era z))) < 10
      then month_index (day_of_year (day_of_century (day_of_era z))) + 3
      else month_index (day_of_year (day_of_century (day_of_era z))) - 9)"

definition date_of_day :: "int \<Rightarrow> int" where
  "date_of_day z =
     day_of_year (day_of_century (day_of_era z)) -
     (153 * month_index (day_of_year (day_of_century (day_of_era z))) + 2) div 5 + 1"

definition year_of_day :: "int \<Rightarrow> int" where
  "year_of_day z =
     year_of_era (day_of_era z) + (z + 719468) div 146097 * 400 +
     (if month_of_day z \<le> 2 then 1 else 0)"

text \<open>The day number of a civil date.\<close>

definition days_before_year :: "int \<Rightarrow> int" where
  "days_before_year y = y * 365 + y div 4 - y div 100"

definition days_from_civil :: "int \<Rightarrow> int \<Rightarrow> int \<Rightarrow> int" where
  "days_from_civil y m d =
     (if m \<le> 2 then y - 1 else y) div 400 * 146097 +
     days_before_year ((if m \<le> 2 then y - 1 else y) mod 400) +
     (153 * (if m > 2 then m - 3 else m + 9) + 2) div 5 + d - 1 - 719468"

definition year_text :: "int \<Rightarrow> string" where
  "year_text y =
     (if 0 \<le> y \<and> y \<le> 9999 then pad 4 y
      else (if y < 0 then CHR ''-'' else CHR ''+'') # pad 6 \<bar>y\<bar>)"

definition toISOString :: "int \<Rightarrow> string" where
  "toISOString t =
     year_text (year_of_day (t div 86400000)) @ ''-'' @
     pad 2 (month_of_day (t div 86400000)) @ ''-'' @
     pad 2 (date_of_day (t div 86400000)) @ ''T'' @
     pad 2 (t mod 86400000 div 3600000) @ '':'' @
     pad 2 (t mod 86400000 div 60000 mod 60) @ '':'' @
     pad 2 (t mod 86400000 div 1000 mod 60) @ ''.'' @
     pad 3 (t mod 1000) @ ''Z''"

definition digit_value :: "char \<Rightarrow> int option" where
  "digit_value c =
     (let n = (of_char c :: int) in if 48 \<le> n \<and> n \<le> 57 then Some (n - 48) else None)"

fun number_from :: "int \<Rightarrow> string \<Rightarrow> int option" where
  "number_from acc [] = Some acc"
| "number_from acc (c # s) =
     (case digit_value c of None \<Rightarrow> None | Some v \<Rightarrow> number_from (10 * acc + v) s)"

text \<open>The number written by the \<open>n\<close> characters of \<open>s\<close> from position \<open>i\<close>.\<close>

definition field :: "string \<Rightarrow> nat \<Rightarrow> nat \<Rightarrow> int option" where
  "field s i n =
     (if i + n \<le> length s \<and> 0 < n then number_from 0 (take n (drop i s)) else None)"

text \<open>A time value is at most 8640000000000000 in absolute value; a number beyond is no date.\<close>

definition is_time_value :: "int \<Rightarrow> bool" where
  "is_time_value t = (- 8640000000000000 \<le> t \<and> t \<le> 8640000000000000)"

definition TimeClip :: "int \<Rightarrow> int option" where
  "TimeClip t = (if is_time_value t then Some t else None)"

definition time_of_fields :: "int \<Rightarrow> int \<Rightarrow> int \<Rightarrow> int \<Rightarrow> int \<Rightarrow> int \<Rightarrow> int \<Rightarrow> int option" where
  "time_of_fields y m d h mi se ms =
     (if h < 24 \<and> mi < 60 \<and> se < 60 \<and>
         year_of_day (days_from_civil y m d) = y \<and>
         month_of_day (days_from_civil y m d) = m \<and>
         date_of_day (days_from_civil y m d) = d
      then TimeClip (days_from_civil y m d * 86400000 + h * 3600000 + mi * 60000 + se * 1000 + ms)
      else None)"

text \<open>The text after the year: \<^verbatim>\<open>-MM-DDTHH:mm:ss.sssZ\<close>.\<close>

definition iso_rest :: "int \<Rightarrow> string \<Rightarrow> int option" where
  "iso_rest y s =
     (if length s = 20 \<and> s ! 0 = CHR ''-'' \<and> s ! 3 = CHR ''-'' \<and> s ! 6 = CHR ''T'' \<and>
         s ! 9 = CHR '':'' \<and> s ! 12 = CHR '':'' \<and> s ! 15 = CHR ''.'' \<and> s ! 19 = CHR ''Z''
      then do {
        m \<leftarrow> field s 1 2;
        d \<leftarrow> field s 4 2;
        h \<leftarrow> field s 7 2;
        mi \<leftarrow> field s 10 2;
        se \<leftarrow> field s 13 2;
        ms \<leftarrow> field s 16 3;
        time_of_fields y m d h mi se ms
      }
      else None)"

definition Date_parse :: "string \<Rightarrow> int option" where
  "Date_parse s =
     (case s of
        [] \<Rightarrow> None
      | c # s' \<Rightarrow>
          (if c = CHR ''+'' \<or> c = CHR ''-''
           then (case field s' 0 6 of
                   None \<Rightarrow> None
                 | Some y \<Rightarrow>
                     (if c = CHR ''-'' \<and> y = 0 then None
                      else iso_rest (if c = CHR ''-'' then - y else y) (drop 6 s')))
           else (case field s 0 4 of
                   None \<Rightarrow> None
                 | Some y \<Rightarrow> iso_rest y (drop 4 s))))"

section \<open>Notifications\<close>

datatype toast = Toast string string bool

section \<open>Chat context\<close>

record User =
  id_User :: string
  email :: string
  name :: string
  isGuest :: "bool option"

text \<open>
  The state of \<^verbatim>\<open>ChatProvider\<close>: its four state variables, the user of the auth
  context, the local storage, and the toasts shown and requests sent so far. Console
  output is not part of the state.
\<close>

record chat_state =
  sessions :: "ChatSession list"
  currentSession :: "ChatSession option"
  loading :: bool
  isTyping :: bool
  user :: "User option"
  localStorage :: storage
  toasts :: "toast list"
  requests :: "request list"

subsection \<open>Persistence\<close>

text \<open>
  \<^verbatim>\<open>JSON.stringify\<close> of the collection: a \<^verbatim>\<open>Date\<close> is written by its \<^verbatim>\<open>toJSON\<close>, the text
  of \<^verbatim>\<open>toISOString\<close>; an absent optional property is not written.
\<close>

definition role_text :: "role \<Rightarrow> string" where
  "role_text r = (case r of UserRole \<Rightarrow> ''user'' | AssistantRole \<Rightarrow> ''assistant'')"

definition Message_toJSON :: "Message \<Rightarrow> json" where
  "Message_toJSON m =
     JObj ([(''id'', JStr (id_Message m)),
            (''content'', JStr (content m)),
            (''role'', JStr (role_text (role m))),
            (''timestamp'', JStr (toISOString (timestamp m)))] @
           (case isTyping_Message m of None \<Rightarrow> [] | Some b \<Rightarrow> [(''isTyping'', JBool b)]))"

definition ChatSession_toJSON :: "ChatSession \<Rightarrow> json" where
  "ChatSession_toJSON s =
     JObj [(''id'', JStr (id_ChatSession s)),
           (''title'', JStr (title s)),
           (''messages'', JArr (map (Message_toJSON) (messages s))),
           (''createdAt'', JStr (toISOString (createdAt s))),
           (''updatedAt'', JStr (toISOString (updatedAt s)))]"

definition sessions_toJSON :: "ChatSession list \<Rightarrow> json" where
  "sessions_toJSON ss = JArr (map (ChatSession_toJSON) ss)"

definition sessions_key :: "string \<Rightarrow> string" where
  "sessions_key userId = ''trip_planner_sessions_'' @ userId"

text \<open>\<^verbatim>\<open>saveSessions\<close>, with the user its closure holds.\<close>

definition saveSessions :: "User option \<Rightarrow> ChatSession list \<Rightarrow> storage \<Rightarrow> storage" where
  "saveSessions usr updatedSessions store =
     (case usr of
        None \<Rightarrow> store
      | Some u \<Rightarrow> store(sessions_key (id_User u) \<mapsto> Json_text (sessions_toJSON updatedSessions)))"

text \<open>
  The mapping of \<^verbatim>\<open>loadSessions\<close> over the parsed document. It throws a \<^verbatim>\<open>TypeError\<close>
  when the document is not an array, when a session is \<^verbatim>\<open>null\<close> or has no array
  \<^verbatim>\<open>messages\<close>, or when a message is \<^verbatim>\<open>null\<close>.
\<close>

definition message_throws :: "json \<Rightarrow> bool" where
  "message_throws msg = (msg = JNull)"

definition session_throws :: "json \<Rightarrow> bool" where
  "session_throws session =
     (case session of
        JObj kvs \<Rightarrow>
          (case map_of kvs ''messages'' of
             Some (JArr msgs) \<Rightarrow> list_ex message_throws msgs
           | _ \<Rightarrow> True)
      | _ \<Rightarrow> True)"

definition parsing_throws :: "json \<Rightarrow> bool" where
  "parsing_throws j = (case j of JArr ss \<Rightarrow> list_ex session_throws ss | _ \<Rightarrow> True)"

text \<open>
  Where nothing is thrown, the mapped objects are read as typed values. The result is
  \<open>None\<close> when an object is not of its declared type (a property is missing, has
  another type or is not one of the interface, or \<^verbatim>\<open>new Date\<close> is not given a text that
  \<open>Date_parse\<close> reads): the typed model does not cover the objects the source carries on
  with there.
\<close>

definition as_string :: "json option \<Rightarrow> string option" where
  "as_string v = (case v of Some (JStr s) \<Rightarrow> Some s | _ \<Rightarrow> None)"

definition as_role :: "json option \<Rightarrow> role option" where
  "as_role v =
     (case v of
        Some (JStr s) \<Rightarrow>
          (if s = ''user'' then Some UserRole
           else if s = ''assistant'' then Some AssistantRole else None)
      | _ \<Rightarrow> None)"

definition as_optional_bool :: "json option \<Rightarrow> bool option option" where
  "as_optional_bool v =
     (case v of None \<Rightarrow> Some None | Some (JBool b) \<Rightarrow> Some (Some b) | _ \<Rightarrow> None)"

definition new_Date :: "json option \<Rightarrow> int option" where
  "new_Date v = (case v of Some (JStr s) \<Rightarrow> Date_parse s | _ \<Rightarrow> None)"

definition has_only_keys :: "string list \<Rightarrow> (string \<times> json) list \<Rightarrow> bool" where
  "has_only_keys ks kvs = (distinct (map fst kvs) \<and> list_all (\<lambda>k. k \<in> set ks) (map fst kvs))"

definition Message_of_JSON :: "json \<Rightarrow> Message option" where
  "Message_of_JSON msg =
     (case msg of
        JObj kvs \<Rightarrow>
          (if has_only_keys [''id'', ''content'', ''role'', ''timestamp'', ''isTyping''] kvs
           then do {
             i \<leftarrow> as_string (map_of kvs ''id'');
             c \<leftarrow> as_string (map_of kvs ''content'');
             r \<leftarrow> as_role (map_of kvs ''role'');
             t \<leftarrow> new_Date (map_of kvs ''timestamp'');
             y \<leftarrow> as_optional_bool (map_of kvs ''isTyping'');
             Some \<lparr>id_Message = i, content = c, role = r, timestamp = t, isTyping_Message = y\<rparr>
           }
           else None)
      | _ \<Rightarrow> None)"

fun all_Some :: "'a option list \<Rightarrow> 'a list option" where
  "all_Some [] = Some []"
| "all_Some (None # xs) = None"
| "all_Some (Some x # xs) = (case all_Some xs of None \<Rightarrow> None | Some ys \<Rightarrow> Some (x # ys))"

definition ChatSession_of_JSON :: "json \<Rightarrow> ChatSession option" where
  "ChatSession_of_JSON session =
     (case session of
        JObj kvs \<Rightarrow>
          (if has_only_keys [''id'', ''title'', ''messages'', ''createdAt'', ''updatedAt''] kvs
           then do {
             i \<leftarrow> as_string (map_of kvs ''id'');
             t \<leftarrow> as_string (map_of kvs ''title'');
             c \<leftarrow> new_Date (map_of kvs ''createdAt'');
             u \<leftarrow> new_Date (map_of kvs ''updatedAt'');
             ms \<leftarrow> (case map_of kvs ''messages'' of
                      Some (JArr msgs) \<Rightarrow> all_Some (map (Message_of_JSON) msgs)
                    | _ \<Rightarrow> None);
             Some \<lparr>id_ChatSession = i, title = t, messages = ms, createdAt = c, updatedAt = u\<rparr>
           }
           else None)
      | _ \<Rightarrow> None)"

definition sessions_of_JSON :: "json \<Rightarrow> ChatSession list option" where
  "sessions_of_JSON j =
     (case j of JArr ss \<Rightarrow> all_Some (map (ChatSession_of_JSON) ss) | _ \<Rightarrow> None)"

text \<open>
  \<^verbatim>\<open>loadSessions\<close>. With no user the key ends in \<^verbatim>\<open>undefined\<close>. A text that is absent or
  empty, or on which \<^verbatim>\<open>JSON.parse\<close> or the mapping throws, leaves the state as it is.
  The result is \<open>None\<close> where the typed model does not cover the document.
\<close>

definition loadSessions :: "chat_state \<Rightarrow> chat_state option" where
  "loadSessions st =
     (let savedSessions =
            localStorage st
              (sessions_key (case user st of None \<Rightarrow> ''undefined'' | Some u \<Rightarrow> id_User u))
      in if truthy savedSessions
         then (case savedSessions of
                 Some (Json_text j) \<Rightarrow>
                   (if parsing_throws j then Some st
                    else (case sessions_of_JSON j of
                            None \<Rightarrow> None
                          | Some parsedSessions \<Rightarrow>
                              Some (st\<lparr>sessions := parsedSessions,
                                       currentSession :=
                                         (if length parsedSessions > 0 \<and> currentSession st = None
                                          then Some (parsedSessions ! 0)
                                          else currentSession st)\<rparr>)))
               | _ \<Rightarrow> Some st)
         else Some st)"

text \<open>The effect that runs when the provider mounts and when the user changes.\<close>

definition useEffect_user :: "chat_state \<Rightarrow> chat_state option" where
  "useEffect_user st = (if user st \<noteq> None then loadSessions st else Some st)"

text \<open>The state of a provider that has just mounted.\<close>

definition mounted :: "User option \<Rightarrow> storage \<Rightarrow> chat_state" where
  "mounted usr store =
     \<lparr>sessions = [], currentSession = None, loading = False, isTyping = False, user = usr,
      localStorage = store, toasts = [], requests = []\<rparr>"

subsection \<open>Operations\<close>

definition createNewSession :: "platform \<Rightarrow> chat_state \<Rightarrow> chat_state" where
  "createNewSession P st =
     (let newSession =
            \<lparr>id_ChatSession = ''session_'' @ String_of_int (now P 0),
             title = ''New Trip Plan'',
             messages = [],
             createdAt = now P 1,
             updatedAt = now P 2\<rparr>;
          updatedSessions = newSession # sessions st
      in st\<lparr>sessions := updatedSessions,
            currentSession := Some newSession,
            localStorage := saveSessions (user st) updatedSessions (localStorage st)\<rparr>)"

definition selectSession :: "string \<Rightarrow> chat_state \<Rightarrow> chat_state" where
  "selectSession sessionId st =
     (case List.find (\<lambda>s. id_ChatSession s = sessionId) (sessions st) of
        Some session \<Rightarrow> st\<lparr>currentSession := Some session\<rparr>
      | None \<Rightarrow> st)"

text \<open>
  \<^verbatim>\<open>sendMessage\<close> runs in two steps, before and after the \<^verbatim>\<open>await\<close>. What the second
  step reads of the first is the closure of the call: the session that was current, the
  collection and the user of the render the call was made in, and the session with the
  user's message appended.
\<close>

record pending =
  closure_currentSession :: ChatSession
  closure_sessions :: "ChatSession list"
  closure_user :: "User option"
  updatedSession :: ChatSession
  sent :: request

definition sendMessage_begin :: "platform \<Rightarrow> string \<Rightarrow> chat_state \<Rightarrow> chat_state \<times> pending option" where
  "sendMessage_begin P content' st =
     (case currentSession st of
        None \<Rightarrow> (createNewSession P st, None)
      | Some cur \<Rightarrow>
          (let userMessage =
                 \<lparr>id_Message = ''msg_'' @ String_of_int (now P 4),
                  content = content',
                  role = UserRole,
                  timestamp = now P 5,
                  isTyping_Message = None\<rparr>;
               updated =
                 cur\<lparr>messages := messages cur @ [userMessage],
                     updatedAt := now P 6,
                     title :=
                       (if length (messages cur) = 0
                        then generateSessionTitle (toLocaleDateString P (now P 3)) content'
                        else title cur)\<rparr>;
               req =
                 \<lparr>message = content',
                  session_id = id_ChatSession cur,
                  history = map (\<lambda>msg. (role msg, content msg)) (messages cur),
                  bearer = localStorage st ''trip_planner_token''\<rparr>
           in (st\<lparr>currentSession := Some updated, isTyping := True, loading := True,
                   requests := requests st @ [req]\<rparr>,
               Some \<lparr>closure_currentSession = cur, closure_sessions = sessions st,
                     closure_user = user st, updatedSession = updated, sent = req\<rparr>)))"

text \<open>The session \<^verbatim>\<open>finalSession\<close> that a reply gives.\<close>

definition finalSession :: "platform \<Rightarrow> pending \<Rightarrow> string \<Rightarrow> ChatSession" where
  "finalSession P p reply =
     (let assistantMessage =
            \<lparr>id_Message = ''msg_'' @ String_of_int (now P 7 + 1),
             content = reply,
             role = AssistantRole,
             timestamp = now P 8,
             isTyping_Message = None\<rparr>
      in (updatedSession p)
           \<lparr>messages := messages (updatedSession p) @ [assistantMessage],
            updatedAt := now P 9\<rparr>)"

definition sendMessage_settle :: "platform \<Rightarrow> pending \<Rightarrow> fetch_result \<Rightarrow> chat_state \<Rightarrow> chat_state" where
  "sendMessage_settle P p result st =
     (case result of
        Response True (Some reply) \<Rightarrow>
          (let updatedSessions =
                 map (\<lambda>s. if id_ChatSession s = id_ChatSession (closure_currentSession p)
                          then finalSession P p reply else s)
                   (closure_sessions p)
           in st\<lparr>currentSession := Some (finalSession P p reply),
                 sessions := updatedSessions,
                 localStorage := saveSessions (closure_user p) updatedSessions (localStorage st),
                 isTyping := False,
                 loading := False\<rparr>)
      | _ \<Rightarrow>
          st\<lparr>toasts := toasts st @ [Toast ''Error'' ''Failed to send message. Please try again.'' True],
             currentSession := Some (closure_currentSession p),
             isTyping := False,
             loading := False\<rparr>)"

text \<open>The whole call, when nothing else runs between its two steps.\<close>

definition sendMessage :: "platform \<Rightarrow> string \<Rightarrow> chat_state \<Rightarrow> chat_state" where
  "sendMessage P content' st =
     (case sendMessage_begin P content' st of
        (st1, None) \<Rightarrow> st1
      | (st1, Some p) \<Rightarrow> sendMessage_settle P p (fetch P (sent p)) st1)"

text \<open>
  The call with an operation of the provider between its two steps: \<open>between\<close> runs while
  the request is out, and the second step runs on the state it leaves.
\<close>

definition sendMessage_interleaved ::
  "platform \<Rightarrow> string \<Rightarrow> (chat_state \<Rightarrow> chat_state) \<Rightarrow> chat_state \<Rightarrow> chat_state" where
  "sendMessage_interleaved P content' between st =
     (case sendMessage_begin P content' st of
        (st1, None) \<Rightarrow> st1
      | (st1, Some p) \<Rightarrow> sendMessage_settle P p (fetch P (sent p)) (between st1))"

definition deleteSession :: "string \<Rightarrow> chat_state \<Rightarrow> chat_state" where
  "deleteSession sessionId st =
     (let updatedSessions = filter (\<lambda>s. id_ChatSession s \<noteq> sessionId) (sessions st)
      in st\<lparr>sessions := updatedSessions,
            localStorage := saveSessions (user st) updatedSessions (localStorage st),
            currentSession :=
              (case currentSession st of
                 None \<Rightarrow> None
               | Some cur \<Rightarrow>
                   (if id_ChatSession cur = sessionId
                    then (if length updatedSessions > 0 then Some (updatedSessions ! 0) else None)
                    else Some cur)),
            toasts := toasts st @ [Toast ''Session deleted'' ''Trip planning session has been removed.'' False]\<rparr>)"

definition clearCurrentChat :: "platform \<Rightarrow> chat_state \<Rightarrow> chat_state" where
  "clearCurrentChat P st =
     (case currentSession st of
        None \<Rightarrow> st
      | Some cur \<Rightarrow>
          (let clearedSession = cur\<lparr>messages := [], title := ''New Trip Plan'', updatedAt := now P 10\<rparr>;
               updatedSessions =
                 map (\<lambda>s. if id_ChatSession s = id_ChatSession cur then clearedSession else s)
                   (sessions st)
           in st\<lparr>currentSession := Some clearedSession,
                 sessions := updatedSessions,
                 localStorage := saveSessions (user st) updatedSessions (localStorage st)\<rparr>))"

text \<open>\<^verbatim>\<open>searchSessions\<close> returns its result and leaves the state to its caller.\<close>

definition searchSessions :: "string \<Rightarrow> chat_state \<Rightarrow> ChatSession list \<times> chat_state" where
  "searchSessions query st =
     (if trim query = [] then (sessions st, st)
      else (filter
              (\<lambda>session.
                 String_includes (toLowerCase (title session)) (toLowerCase query) \<or>
                 list_ex (\<lambda>msg. String_includes (toLowerCase (content msg)) (toLowerCase query))
                   (messages session))
              (sessions st),
            st))"

section \<open>Auth context\<close>

text \<open>
  The state of \<^verbatim>\<open>AuthProvider\<close> with the two stores it reads: the local storage and the
  session storage of the tab.
\<close>

record auth_state =
  auth_user :: "User option"
  auth_loading :: bool
  auth_localStorage :: storage
  sessionStorage :: storage

definition User_toJSON :: "User \<Rightarrow> json" where
  "User_toJSON u =
     JObj ([(''id'', JStr (id_User u)), (''email'', JStr (email u)), (''name'', JStr (name u))] @
           (case isGuest u of None \<Rightarrow> [] | Some b \<Rightarrow> [(''isGuest'', JBool b)]))"

text \<open>
  A parsed document as a value of type \<^verbatim>\<open>User | null\<close>; \<open>None\<close> when it is neither
  \<^verbatim>\<open>null\<close> nor an object of the interface.
\<close>

definition as_User :: "json \<Rightarrow> User option option" where
  "as_User j =
     (case j of
        JNull \<Rightarrow> Some None
      | JObj kvs \<Rightarrow>
          (if has_only_keys [''id'', ''email'', ''name'', ''isGuest''] kvs
           then do {
             i \<leftarrow> as_string (map_of kvs ''id'');
             e \<leftarrow> as_string (map_of kvs ''email'');
             n \<leftarrow> as_string (map_of kvs ''name'');
             g \<leftarrow> as_optional_bool (map_of kvs ''isGuest'');
             Some (Some \<lparr>id_User = i, email = e, name = n, isGuest = g\<rparr>)
           }
           else None)
      | _ \<Rightarrow> None)"

text \<open>
  \<^verbatim>\<open>checkExistingSession\<close>. Its two branches that parse an entry and set the user are the
  one function \<open>found_user\<close>; the \<^verbatim>\<open>catch\<close> block, which removes both entries, is
  \<open>clear_corrupted\<close>. The result is \<open>None\<close> where the parsed document is not of type
  \<^verbatim>\<open>User | null\<close>.
\<close>

definition clear_corrupted :: "auth_state \<Rightarrow> auth_state" where
  "clear_corrupted st =
     st\<lparr>auth_localStorage := (auth_localStorage st)(''trip_planner_user'' := None),
        sessionStorage := (sessionStorage st)(''trip_planner_guest_user'' := None),
        auth_user := None,
        auth_loading := False\<rparr>"

definition found_user :: "stored option \<Rightarrow> auth_state \<Rightarrow> auth_state option" where
  "found_user entry st =
     (case entry of
        Some (Json_text j) \<Rightarrow>
          (case as_User j of
             Some parsedUser \<Rightarrow> Some (st\<lparr>auth_user := parsedUser, auth_loading := False\<rparr>)
           | None \<Rightarrow> None)
      | _ \<Rightarrow> Some (clear_corrupted st))"

definition checkExistingSession :: "auth_state \<Rightarrow> auth_state option" where
  "checkExistingSession st =
     (let guestUser = sessionStorage st ''trip_planner_guest_user'' in
      if truthy guestUser then found_user guestUser st
      else
        (let regularUser = auth_localStorage st ''trip_planner_user'' in
         if truthy regularUser then found_user regularUser st
         else Some (st\<lparr>auth_user := None, auth_loading := False\<rparr>)))"

section \<open>The membership invariant and the dates of a collection\<close>

text \<open>The current session, if there is one, has the id of a member of the collection.\<close>

definition current_is_member :: "chat_state \<Rightarrow> bool" where
  "current_is_member st =
     (case currentSession st of
        None \<Rightarrow> True
      | Some cur \<Rightarrow> id_ChatSession cur \<in> id_ChatSession ` set (sessions st))"

definition dates_of :: "ChatSession list \<Rightarrow> int list" where
  "dates_of ss = concat (map (\<lambda>s. createdAt s # updatedAt s # map timestamp (messages s)) ss)"

section \<open>A platform and data for the examples\<close>

text \<open>
  A platform whose clock starts at 1700000000000 and whose server gives one answer to
  every request, a guest, two sessions and the states built from them.
\<close>

definition example_platform :: "fetch_result \<Rightarrow> platform" where
  "example_platform answer =
     \<lparr>now = (\<lambda>k. 1700000000000 + int k),
      toLocaleDateString = (\<lambda>t. ''11/14/2023''),
      fetch = (\<lambda>r. answer)\<rparr>"

definition guest :: User where
  "guest =
     \<lparr>id_User = ''guest_1699999000000'', email = ''guest@example.com'', name = ''Guest User'',
      isGuest = Some True\<rparr>"

definition kyoto_session :: ChatSession where
  "kyoto_session =
     \<lparr>id_ChatSession = ''session_1699999100000'',
      title = ''Trip to Kyoto'',
      messages =
        [\<lparr>id_Message = ''msg_1699999200000'', content = ''I want to visit Kyoto this spring'',
          role = UserRole, timestamp = 1699999200000, isTyping_Message = None\<rparr>,
         \<lparr>id_Message = ''msg_1699999203001'', content = ''Here is your itinerary'',
          role = AssistantRole, timestamp = 1699999203000, isTyping_Message = None\<rparr>],
      createdAt = 1699999100000,
      updatedAt = 1699999203000\<rparr>"

definition blank_session :: ChatSession where
  "blank_session =
     \<lparr>id_ChatSession = ''session_1699999900000'',
      title = ''New Trip Plan'',
      messages = [],
      createdAt = 1699999900000,
      updatedAt = 1699999900000\<rparr>"

definition example_state :: "User option \<Rightarrow> ChatSession option \<Rightarrow> chat_state" where
  "example_state usr cur =
     \<lparr>sessions = [blank_session, kyoto_session], currentSession = cur, loading = False,
      isTyping = False, user = usr, localStorage = Map.empty, toasts = [], requests = []\<rparr>"

definition example_auth :: "stored option \<Rightarrow> stored option \<Rightarrow> auth_state" where
  "example_auth guestEntry userEntry =
     \<lparr>auth_user = None, auth_loading = True,
      auth_localStorage = (\<lambda>k. if k = ''trip_planner_user'' then userEntry else None),
      sessionStorage = (\<lambda>k. if k = ''trip_planner_guest_user'' then guestEntry else None)\<rparr>"

section \<open>Properties of the string operations\<close>

lemma String_includes_sublist: "String_includes s q = sublist q s"
proof (induction s)
  case Nil
  show ?case by auto
next
  case (Cons c s)
  show ?case by (simp add: Cons.IH sublist_Cons_right)
qed

lemma split_from_tokens: "split_from acc s = tokens_from (\<lambda>c. c = CHR '' '') acc s"
  by (induction s arbitrary: acc) auto

lemma sublist_toLowerCase: "sublist q s \<Longrightarrow> sublist (toLowerCase q) (toLowerCase s)"
  unfolding sublist_def toLowerCase_def by (metis map_append)

lemma split_from_nonempty: "split_from acc s \<noteq> []"
  by (induction s arbitrary: acc) auto

lemma join_space_Cons: "ws \<noteq> [] \<Longrightarrow> join_space (w # ws) = w @ CHR '' '' # join_space ws"
  by (cases ws) auto

lemma join_split_from: "join_space (split_from acc s) = rev acc @ s"
  by (induction s arbitrary: acc) (auto simp: join_space_Cons split_from_nonempty)

lemma split_from_no_space:
  "CHR '' '' \<notin> set acc \<Longrightarrow> w \<in> set (split_from acc s) \<Longrightarrow> CHR '' '' \<notin> set w"
proof (induction s arbitrary: acc)
  case Nil
  then show ?case by simp
next
  case (Cons c s)
  show ?case
  proof (cases "c = CHR '' ''")
    case True
    with Cons.prems have "w = rev acc \<or> w \<in> set (split_from [] s)" by simp
    then show ?thesis
    proof
      assume "w = rev acc"
      with Cons.prems(1) show ?thesis by simp
    next
      assume "w \<in> set (split_from [] s)"
      with Cons.IH [of "[]"] show ?thesis by simp
    qed
  next
    case False
    with Cons.prems have "CHR '' '' \<notin> set (c # acc)" and "w \<in> set (split_from (c # acc) s)"
      by auto
    then show ?thesis by (rule Cons.IH)
  qed
qed

lemma split_space_pieces:
  "join_space (split_space s) = s \<and> (\<forall>w \<in> set (split_space s). CHR '' '' \<notin> set w)"
  using split_from_no_space [of "[]" _ s] by (simp add: split_space_def join_split_from)

lemma find_filter_hd:
  "List.find Q ws = (case filter Q ws of [] \<Rightarrow> None | w # _ \<Rightarrow> Some w)"
  by (induction ws) auto

lemma find_None_all: "(\<forall>w \<in> set ws. \<not> Q w) \<Longrightarrow> List.find Q ws = None"
  by (induction ws) auto

lemma capitalized_charAt:
  "w \<noteq> [] \<Longrightarrow> toUpperCase (charAt w 0) @ slice w (Suc 0) = capitalized w"
  by (cases w) (auto simp: toUpperCase_def charAt_def slice_def capitalized_def)

lemma trim_empty: "trim q = [] \<longleftrightarrow> (\<forall>c \<in> set q. isWhiteSpace c)"
proof
  assume "trim q = []"
  then have "\<forall>x \<in> set (dropWhile isWhiteSpace q). isWhiteSpace x"
    by (simp add: trim_def dropWhile_eq_Nil_conv)
  then have "dropWhile isWhiteSpace q = []"
    by (metis hd_dropWhile hd_in_set)
  then show "\<forall>c \<in> set q. isWhiteSpace c"
    by (simp add: dropWhile_eq_Nil_conv)
next
  assume "\<forall>c \<in> set q. isWhiteSpace c"
  then show "trim q = []" by (auto simp: trim_def dest: set_dropWhileD)
qed

section \<open>Title generation: the claims\<close>

lemma generateSessionTitle_tokens:
  "generateSessionTitle d msg = title_split_on_space d msg"
proof -
  let ?Q = "\<lambda>w::string. \<not> length w \<le> 3 \<and> w \<notin> set stoplist"
  let ?ws = "tokens_from (\<lambda>c. c = CHR '' '') [] (toLowerCase msg)"
  have Q: "(\<lambda>word. length word > 3 \<and> \<not> Array_includes stoplist word) = ?Q"
    by (auto simp: Array_includes_def fun_eq_iff)
  show ?thesis
  proof (cases "filter ?Q ?ws")
    case Nil
    then show ?thesis
      by (simp add: generateSessionTitle_def title_split_on_space_def title_of_tokens_def
          split_space_def split_from_tokens Q find_filter_hd)
  next
    case (Cons w rest)
    then have "w \<in> set (filter ?Q ?ws)" by simp
    then have "w \<noteq> []" by auto
    with Cons show ?thesis
      by (simp add: generateSessionTitle_def title_split_on_space_def title_of_tokens_def
          split_space_def split_from_tokens Q find_filter_hd capitalized_charAt)
  qed
qed

text \<open>
  C4, as stated: the title is the one computed from the tokens between white space. It
  fails on a message with a line break: \<^verbatim>\<open>split(" ")\<close> cuts at the space character only,
  so a line break stays inside a token.
\<close>

theorem generateSessionTitle_whitespace_counterexample:
  "generateSessionTitle ''1/1/2025'' (''Plan a trip'' @ [CHR 0x0A] @ ''to Tokyo'')
     = ''Trip to Trip'' @ [CHR 0x0A] @ ''to'' \<and>
   title_split_on_whitespace ''1/1/2025'' (''Plan a trip'' @ [CHR 0x0A] @ ''to Tokyo'')
     = ''Trip to Tokyo'' \<and>
   generateSessionTitle ''1/1/2025'' (''Plan a trip'' @ [CHR 0x0A] @ ''to Tokyo'')
     \<noteq> title_split_on_whitespace ''1/1/2025'' (''Plan a trip'' @ [CHR 0x0A] @ ''to Tokyo'')"
  by code_simp

text \<open>
  C4, amended: title generation lowercases the message and cuts it at every space
  character; among the pieces it drops those of length at most 3 and the words of the
  stoplist; the title is \<^verbatim>\<open>Trip to\<close> followed by the first remaining piece with its first
  letter in upper case, or \<^verbatim>\<open>Trip Plan -\<close> followed by the localized date when no piece
  remains. The message \<^verbatim>\<open>I want to visit Kyoto this spring\<close> gets \<^verbatim>\<open>Trip to Kyoto\<close>, and
  a message whose pieces are all short or in the stoplist gets the dated title. The
  messages are the strings of the model, texts of code units below 256, and the title
  with an upper case in it is stated of those without U+00B5 and U+00FF, whose upper
  case is a code unit above 255.
\<close>

theorem generateSessionTitle_split_on_space:
  "(upper_case_below_256 msg \<longrightarrow> generateSessionTitle d msg = title_split_on_space d msg) \<and>
   generateSessionTitle d ''I want to visit Kyoto this spring'' = ''Trip to Kyoto'' \<and>
   ((\<forall>w \<in> set (tokens_from (\<lambda>c. c = CHR '' '') [] (toLowerCase msg)).
        length w \<le> 3 \<or> w \<in> set stoplist)
    \<longrightarrow> generateSessionTitle d msg = ''Trip Plan - '' @ d)"
proof -
  have kyoto: "generateSessionTitle d ''I want to visit Kyoto this spring'' = ''Trip to Kyoto''"
    by code_simp
  have dated: "generateSessionTitle d msg = ''Trip Plan - '' @ d"
    if "\<forall>w \<in> set (tokens_from (\<lambda>c. c = CHR '' '') [] (toLowerCase msg)).
          length w \<le> 3 \<or> w \<in> set stoplist"
  proof -
    from that have
      "List.find (\<lambda>w. \<not> length w \<le> 3 \<and> w \<notin> set stoplist)
         (tokens_from (\<lambda>c. c = CHR '' '') [] (toLowerCase msg)) = None"
      by (intro find_None_all) auto
    then show ?thesis
      by (simp add: generateSessionTitle_tokens title_split_on_space_def title_of_tokens_def)
  qed
  show ?thesis
    using generateSessionTitle_tokens kyoto dated by blast
qed

theorem generateSessionTitle_split_on_space_witness:
  "tokens_from (\<lambda>c. c = CHR '' '') [] (toLowerCase ''Help me plan a trip'')
     = [''help'', ''me'', ''plan'', ''a'', ''trip''] \<and>
   generateSessionTitle ''1/1/2025'' ''Help me plan a trip'' = ''Trip Plan - 1/1/2025'' \<and>
   generateSessionTitle ''1/1/2025'' ''Weekend in Lisbon'' = ''Trip to Weekend'' \<and>
   generateSessionTitle ''1/1/2025'' (''M'' @ [CHR 0xDC] @ ''NCHEN bitte'')
     = ''Trip to M'' @ [CHR 0xFC] @ ''nchen'' \<and>
   generateSessionTitle ''1/1/2025'' ([CHR 0xDF] @ ''eta Pictoris'') = ''Trip to SSeta''"
proof -
  have toks: "tokens_from (\<lambda>c. c = CHR '' '') [] (toLowerCase ''Help me plan a trip'')
     = [''help'', ''me'', ''plan'', ''a'', ''trip'']"
    by code_simp
  have "\<forall>w \<in> set (tokens_from (\<lambda>c. c = CHR '' '') [] (toLowerCase ''Help me plan a trip'')).
          length w \<le> 3 \<or> w \<in> set stoplist"
    unfolding toks by (simp add: stoplist_def)
  then have a: "generateSessionTitle ''1/1/2025'' ''Help me plan a trip'' = ''Trip Plan - '' @ ''1/1/2025''"
    using generateSessionTitle_split_on_space [of "''Help me plan a trip''" "''1/1/2025''"]
    by blast
  have "upper_case_below_256 ''Weekend in Lisbon''"
    by (simp add: upper_case_below_256_def)
  moreover have "title_split_on_space ''1/1/2025'' ''Weekend in Lisbon'' = ''Trip to Weekend''"
    by code_simp
  ultimately have b: "generateSessionTitle ''1/1/2025'' ''Weekend in Lisbon'' = ''Trip to Weekend''"
    using generateSessionTitle_split_on_space [of "''Weekend in Lisbon''" "''1/1/2025''"]
    by simp
  have "upper_case_below_256 (''M'' @ [CHR 0xDC] @ ''NCHEN bitte'')"
    by (simp add: upper_case_below_256_def)
  moreover have "title_split_on_space ''1/1/2025'' (''M'' @ [CHR 0xDC] @ ''NCHEN bitte'')
      = ''Trip to M'' @ [CHR 0xFC] @ ''nchen''"
    by code_simp
  ultimately have c: "generateSessionTitle ''1/1/2025'' (''M'' @ [CHR 0xDC] @ ''NCHEN bitte'')
      = ''Trip to M'' @ [CHR 0xFC] @ ''nchen''"
    using generateSessionTitle_split_on_space [of "''M'' @ [CHR 0xDC] @ ''NCHEN bitte''" "''1/1/2025''"]
    by simp
  have "upper_case_below_256 ([CHR 0xDF] @ ''eta Pictoris'')"
    by (simp add: upper_case_below_256_def)
  moreover have "title_split_on_space ''1/1/2025'' ([CHR 0xDF] @ ''eta Pictoris'') = ''Trip to SSeta''"
    by code_simp
  ultimately have e: "generateSessionTitle ''1/1/2025'' ([CHR 0xDF] @ ''eta Pictoris'') = ''Trip to SSeta''"
    using generateSessionTitle_split_on_space [of "[CHR 0xDF] @ ''eta Pictoris''" "''1/1/2025''"]
    by simp
  from a b c e toks show ?thesis by simp
qed

section \<open>Trip-plan detection: the claim\<close>

text \<open>
  C7: the flag is set exactly when the message is the assistant's and either its
  lowercased content contains one of \<^verbatim>\<open>itinerary\<close>, \<^verbatim>\<open>day 1\<close>, \<^verbatim>\<open>schedule\<close>, \<^verbatim>\<open>trip plan\<close>, or
  its content contains both \<^verbatim>\<open>## Day\<close> and \<^verbatim>\<open>**Start Date:**\<close>. So an assistant's message
  with \<^verbatim>\<open>Here is your itinerary\<close> in it is flagged, and a user's message never is.
\<close>

theorem containsTripPlan_iff:
  "(containsTripPlan m \<longleftrightarrow>
      role m = AssistantRole \<and>
      ((\<exists>k \<in> set [''itinerary'', ''day 1'', ''schedule'', ''trip plan''].
          sublist k (toLowerCase (content m))) \<or>
       (sublist ''## Day'' (content m) \<and> sublist ''**Start Date:**'' (content m)))) \<and>
   (role m = AssistantRole \<and> sublist ''Here is your itinerary'' (content m)
      \<longrightarrow> containsTripPlan m) \<and>
   (role m = UserRole \<longrightarrow> \<not> containsTripPlan m)"
proof -
  have iff: "containsTripPlan m \<longleftrightarrow>
      role m = AssistantRole \<and>
      ((\<exists>k \<in> set [''itinerary'', ''day 1'', ''schedule'', ''trip plan''].
          sublist k (toLowerCase (content m))) \<or>
       (sublist ''## Day'' (content m) \<and> sublist ''**Start Date:**'' (content m)))"
    by (cases "role m") (auto simp: containsTripPlan_def String_includes_sublist)
  have inner: "sublist ''itinerary'' (toLowerCase ''Here is your itinerary'')"
    unfolding String_includes_sublist [symmetric] by code_simp
  have flagged: "containsTripPlan m"
    if "role m = AssistantRole" and "sublist ''Here is your itinerary'' (content m)"
  proof -
    from that(2) have "sublist (toLowerCase ''Here is your itinerary'') (toLowerCase (content m))"
      by (rule sublist_toLowerCase)
    with inner have "sublist ''itinerary'' (toLowerCase (content m))"
      by (rule sublist_order.order_trans)
    with that(1) show ?thesis
      by (simp add: containsTripPlan_def String_includes_sublist)
  qed
  have never: "\<not> containsTripPlan m" if "role m = UserRole"
    using that by (simp add: containsTripPlan_def)
  show ?thesis
    using iff flagged never by blast
qed

theorem containsTripPlan_iff_witness:
  "containsTripPlan
     \<lparr>id_Message = ''msg_2'', content = ''Sure! Here is your itinerary for Rome'',
      role = AssistantRole, timestamp = 1700000000000, isTyping_Message = None\<rparr> \<and>
   \<not> containsTripPlan
     \<lparr>id_Message = ''msg_1'', content = ''Sure! Here is your itinerary for Rome'',
      role = UserRole, timestamp = 1700000000000, isTyping_Message = None\<rparr>"
proof -
  have "sublist ''Here is your itinerary'' (''Sure! '' @ ''Here is your itinerary'' @ '' for Rome'')"
    unfolding sublist_def by blast
  then have sub: "sublist ''Here is your itinerary'' ''Sure! Here is your itinerary for Rome''"
    by simp
  let ?a = "\<lparr>id_Message = ''msg_2'', content = ''Sure! Here is your itinerary for Rome'',
      role = AssistantRole, timestamp = 1700000000000, isTyping_Message = None\<rparr>"
  let ?u = "\<lparr>id_Message = ''msg_1'', content = ''Sure! Here is your itinerary for Rome'',
      role = UserRole, timestamp = 1700000000000, isTyping_Message = None\<rparr>"
  have "role ?a = AssistantRole \<and> sublist ''Here is your itinerary'' (content ?a)
          \<longrightarrow> containsTripPlan ?a"
    using containsTripPlan_iff [of ?a] by (rule conjunct1 [OF conjunct2])
  with sub have a: "containsTripPlan ?a" by simp
  have "role ?u = UserRole \<longrightarrow> \<not> containsTripPlan ?u"
    using containsTripPlan_iff [of ?u] by (rule conjunct2 [OF conjunct2])
  then have u: "\<not> containsTripPlan ?u" by simp
  from a u show ?thesis by (rule conjI)
qed

section \<open>Search: the claim\<close>

text \<open>
  C6: for a query that is empty or all white space (the no-break space included),
  \<^verbatim>\<open>searchSessions\<close> returns the whole collection; for any other query it returns, in
  their order, exactly the sessions whose lowercased title or one of whose lowercased
  message contents contains the lowercased query. In both cases the state, the
  collection and the storage in it, is as before.
\<close>

theorem searchSessions_correct:
  "snd (searchSessions q st) = st \<and>
   ((\<forall>c \<in> set q. isWhiteSpace c) \<longrightarrow> fst (searchSessions q st) = sessions st) \<and>
   (\<not> (\<forall>c \<in> set q. isWhiteSpace c) \<longrightarrow>
      fst (searchSessions q st) =
        filter
          (\<lambda>s. sublist (toLowerCase q) (toLowerCase (title s)) \<or>
               (\<exists>m \<in> set (messages s). sublist (toLowerCase q) (toLowerCase (content m))))
          (sessions st))"
  by (simp add: searchSessions_def trim_empty String_includes_sublist list_ex_iff)


theorem searchSessions_correct_witness:
  "fst (searchSessions ''KYOTO'' (example_state (Some guest) None)) = [kyoto_session] \<and>
   fst (searchSessions ''itinerary'' (example_state (Some guest) None)) = [kyoto_session] \<and>
   fst (searchSessions ''   '' (example_state (Some guest) None)) = [blank_session, kyoto_session] \<and>
   fst (searchSessions [CHR 0xA0, CHR 0x09] (example_state (Some guest) None))
     = [blank_session, kyoto_session] \<and>
   fst (searchSessions [CHR 0xDC] (example_state (Some guest) None)) = [] \<and>
   snd (searchSessions ''KYOTO'' (example_state (Some guest) None)) = example_state (Some guest) None"
proof -
  let ?st = "example_state (Some guest) None"
  have ss: "sessions ?st = [blank_session, kyoto_session]"
    by (simp add: example_state_def)
  have blank: "\<forall>c \<in> set ''   ''. isWhiteSpace c"
    and nbsp: "\<forall>c \<in> set [CHR 0xA0, CHR 0x09]. isWhiteSpace c"
    by (simp_all add: isWhiteSpace_def)
  have q1: "\<not> (\<forall>c \<in> set ''KYOTO''. isWhiteSpace c)"
    and q2: "\<not> (\<forall>c \<in> set ''itinerary''. isWhiteSpace c)"
    and q3: "\<not> (\<forall>c \<in> set [CHR 0xDC]. isWhiteSpace c)"
    by (simp_all add: isWhiteSpace_def)
  have f1: "filter
          (\<lambda>s. sublist (toLowerCase ''KYOTO'') (toLowerCase (title s)) \<or>
               (\<exists>m \<in> set (messages s). sublist (toLowerCase ''KYOTO'') (toLowerCase (content m))))
          [blank_session, kyoto_session] = [kyoto_session]"
    unfolding String_includes_sublist [symmetric] Bex_set [symmetric] by code_simp
  have f2: "filter
          (\<lambda>s. sublist (toLowerCase ''itinerary'') (toLowerCase (title s)) \<or>
               (\<exists>m \<in> set (messages s). sublist (toLowerCase ''itinerary'') (toLowerCase (content m))))
          [blank_session, kyoto_session] = [kyoto_session]"
    unfolding String_includes_sublist [symmetric] Bex_set [symmetric] by code_simp
  have f3: "filter
          (\<lambda>s. sublist (toLowerCase [CHR 0xDC]) (toLowerCase (title s)) \<or>
               (\<exists>m \<in> set (messages s). sublist (toLowerCase [CHR 0xDC]) (toLowerCase (content m))))
          [blank_session, kyoto_session] = []"
    unfolding String_includes_sublist [symmetric] Bex_set [symmetric] by code_simp
  from searchSessions_correct [of "''KYOTO''" ?st] q1 f1
  have a: "fst (searchSessions ''KYOTO'' ?st) = [kyoto_session]"
    and d: "snd (searchSessions ''KYOTO'' ?st) = ?st"
    unfolding ss by simp_all
  from searchSessions_correct [of "''itinerary''" ?st] q2 f2
  have b: "fst (searchSessions ''itinerary'' ?st) = [kyoto_session]"
    unfolding ss by simp
  from searchSessions_correct [of "''   ''" ?st] blank
  have c: "fst (searchSessions ''   '' ?st) = [blank_session, kyoto_session]"
    unfolding ss by simp
  from searchSessions_correct [of "[CHR 0xA0, CHR 0x09]" ?st] nbsp
  have e: "fst (searchSessions [CHR 0xA0, CHR 0x09] ?st) = [blank_session, kyoto_session]"
    unfolding ss by simp
  from searchSessions_correct [of "[CHR 0xDC]" ?st] q3 f3
  have f: "fst (searchSessions [CHR 0xDC] ?st) = []"
    unfolding ss by simp
  from a b c d e f show ?thesis by simp
qed

section \<open>The date format: lemmas\<close>

lemma div_between:
  fixes a b q :: int
  assumes "b * q \<le> a" "a < b * q + b"
  shows "a div b = q"
proof -
  have "a = b * q + (a - b * q)" by simp
  moreover from assms have "0 \<le> a - b * q" "a - b * q < b" by simp_all
  ultimately show ?thesis by (rule int_div_pos_eq)
qed

lemma capped_quotient:
  fixes r b :: int
  assumes "0 \<le> r" "r \<le> 4 * b" "0 < b"
  shows "0 \<le> min 3 (r div b)" "min 3 (r div b) \<le> 3"
    "b * min 3 (r div b) \<le> r" "r \<le> b * min 3 (r div b) + b"
proof -
  consider "r < b" | "b \<le> r" "r < 2 * b" | "2 * b \<le> r" "r < 3 * b" | "3 * b \<le> r"
    by linarith
  then have "min 3 (r div b) \<le> 3 \<and> 0 \<le> min 3 (r div b) \<and>
      b * min 3 (r div b) \<le> r \<and> r \<le> b * min 3 (r div b) + b"
  proof cases
    case 1
    with assms have "r div b = 0" by (intro div_between) simp_all
    with assms 1 show ?thesis by simp
  next
    case 2
    with assms have "r div b = 1" by (intro div_between) simp_all
    with assms 2 show ?thesis by simp
  next
    case 3
    with assms have "r div b = 2" by (intro div_between) simp_all
    with assms 3 show ?thesis by simp
  next
    case 4
    have "(3 * b) div b \<le> r div b" using 4 assms(3) by (rule zdiv_mono1)
    with assms(3) have "3 \<le> r div b" by simp
    then have "min 3 (r div b) = 3" by simp
    with assms 4 show ?thesis by simp
  qed
  then show "0 \<le> min 3 (r div b)" "min 3 (r div b) \<le> 3"
    "b * min 3 (r div b) \<le> r" "r \<le> b * min 3 (r div b) + b"
    by simp_all
qed



lemma day_of_era_bounds: "0 \<le> day_of_era z" "day_of_era z \<le> 146096"
proof -
  show "0 \<le> day_of_era z" by (simp add: day_of_era_def)
  have "day_of_era z < 146097" by (simp add: day_of_era_def)
  then show "day_of_era z \<le> 146096" by simp
qed

lemma century_facts:
  fixes d :: int
  assumes "0 \<le> d" "d \<le> 146096"
  shows "0 \<le> century_of_era d" "century_of_era d \<le> 3"
    "0 \<le> day_of_century d" "day_of_century d \<le> 36524"
  using capped_quotient [of d 36524] assms
  by (simp_all add: century_of_era_def day_of_century_def)

lemma cycle_facts:
  fixes d :: int
  assumes "0 \<le> d" "d \<le> 36524"
  shows "0 \<le> d div 1461" "d div 1461 \<le> 24"
    "0 \<le> min 3 (d mod 1461 div 365)" "min 3 (d mod 1461 div 365) \<le> 3"
    "0 \<le> day_of_year d" "day_of_year d \<le> 365"
proof -
  show "0 \<le> d div 1461" using assms(1) by simp
  have "d div 1461 \<le> 36524 div 1461" using assms(2) by (rule zdiv_mono1) simp
  then show "d div 1461 \<le> 24" by simp
  have r0: "0 \<le> d mod 1461" by simp
  have "d mod 1461 < 1461" by simp
  then have r1: "d mod 1461 \<le> 4 * 365" by simp
  from capped_quotient [OF r0 r1]
  show "0 \<le> min 3 (d mod 1461 div 365)" "min 3 (d mod 1461 div 365) \<le> 3"
    "0 \<le> day_of_year d" "day_of_year d \<le> 365"
    by (simp_all add: day_of_year_def)
qed

lemma year_of_era_split:
  fixes d :: int
  assumes "0 \<le> d" "d \<le> 146096"
  shows "0 \<le> year_of_era d" "year_of_era d \<le> 399"
    "days_before_year (year_of_era d) + day_of_year (day_of_century d) = d"
proof -
  define c where "c = century_of_era d"
  define q where "q = day_of_century d div 1461"
  define n where "n = min 3 (day_of_century d mod 1461 div 365)"
  note cf = century_facts [OF assms]
  note yf = cycle_facts [OF cf(3,4)]
  from cf have c: "0 \<le> c" "c \<le> 3" by (simp_all add: c_def)
  from yf have q: "0 \<le> q" "q \<le> 24" and n: "0 \<le> n" "n \<le> 3"
    by (simp_all add: q_def n_def)
  have y: "year_of_era d = 100 * c + 4 * q + n"
    by (simp add: year_of_era_def year_of_century_def c_def q_def n_def)
  from c q n show "0 \<le> year_of_era d" "year_of_era d \<le> 399"
    unfolding y by linarith+
  from q n have d4: "(100 * c + 4 * q + n) div 4 = 25 * c + q"
    by (intro div_between) simp_all
  from q n have d100: "(100 * c + 4 * q + n) div 100 = c"
    by (intro div_between) simp_all
  have d2: "day_of_century d = 1461 * q + day_of_century d mod 1461"
    by (simp add: q_def)
  have doy: "day_of_year (day_of_century d) = day_of_century d mod 1461 - 365 * n"
    by (simp add: day_of_year_def n_def)
  have dd: "d = 36524 * c + day_of_century d"
    by (simp add: day_of_century_def c_def)
  have "days_before_year (year_of_era d) = 36524 * c + 1461 * q + 365 * n"
    unfolding y days_before_year_def d4 d100 by simp
  with doy d2 dd show "days_before_year (year_of_era d) + day_of_year (day_of_century d) = d"
    by linarith
qed

lemma month_facts:
  fixes doy :: int
  assumes "0 \<le> doy" "doy \<le> 365"
  shows "0 \<le> month_index doy" "month_index doy \<le> 11"
    "1 \<le> doy - (153 * month_index doy + 2) div 5 + 1"
    "doy - (153 * month_index doy + 2) div 5 + 1 \<le> 31"
proof -
  define mp where "mp = month_index doy"
  have "(5 * 0 + 2) div 153 \<le> (5 * doy + 2) div 153"
    using assms(1) by (intro zdiv_mono1) simp_all
  then have lo: "0 \<le> mp" by (simp add: mp_def month_index_def)
  have "(5 * doy + 2) div 153 \<le> (5 * 365 + 2) div 153"
    using assms(2) by (intro zdiv_mono1) simp_all
  then have hi: "mp \<le> 11" by (simp add: mp_def month_index_def)
  have "153 * ((5 * doy + 2) div 153) + (5 * doy + 2) mod 153 = 5 * doy + 2"
    by simp
  moreover have "0 \<le> (5 * doy + 2) mod 153" "(5 * doy + 2) mod 153 < 153"
    by simp_all
  ultimately have b: "153 * mp \<le> 5 * doy + 2" "5 * doy + 2 < 153 * mp + 153"
    unfolding mp_def month_index_def by linarith+
  define e where "e = (153 * mp + 2) div 5"
  have "5 * e + (153 * mp + 2) mod 5 = 153 * mp + 2"
    by (simp add: e_def)
  moreover have "0 \<le> (153 * mp + 2) mod 5" "(153 * mp + 2) mod 5 < 5"
    by simp_all
  ultimately have e: "5 * e \<le> 153 * mp + 2" "153 * mp + 2 < 5 * e + 5"
    by linarith+
  from b e have "1 \<le> doy - e + 1" "doy - e + 1 \<le> 31"
    by linarith+
  then show "1 \<le> doy - (153 * month_index doy + 2) div 5 + 1"
    "doy - (153 * month_index doy + 2) div 5 + 1 \<le> 31"
    by (simp_all add: e_def mp_def)
  from lo hi show "0 \<le> month_index doy" "month_index doy \<le> 11"
    by (simp_all add: mp_def)
qed

lemma days_from_civil_inverse:
  "days_from_civil (year_of_day z) (month_of_day z) (date_of_day z) = z"
proof -
  define doe where "doe = day_of_era z"
  define doy where "doy = day_of_year (day_of_century doe)"
  define mp where "mp = month_index doy"
  define era where "era = (z + 719468) div 146097"
  note eb = day_of_era_bounds [of z, folded doe_def]
  note ys = year_of_era_split [OF eb]
  note cf = century_facts [OF eb]
  note yf = cycle_facts [OF cf(3,4), folded doy_def]
  note mf = month_facts [OF yf(5,6), folded mp_def]
  have m: "month_of_day z = (if mp < 10 then mp + 3 else mp - 9)"
    by (simp add: month_of_day_def mp_def doy_def doe_def)
  have d: "date_of_day z = doy - (153 * mp + 2) div 5 + 1"
    by (simp add: date_of_day_def mp_def doy_def doe_def)
  have y: "year_of_day z = year_of_era doe + era * 400 + (if month_of_day z \<le> 2 then 1 else 0)"
    by (simp add: year_of_day_def doe_def era_def)
  from mf(1,2) have m2: "(month_of_day z \<le> 2) = (\<not> mp < 10)"
    unfolding m by auto
  have y': "(if month_of_day z \<le> 2 then year_of_day z - 1 else year_of_day z)
      = 400 * era + year_of_era doe"
    unfolding y by simp
  from ys(1,2) have e1: "(400 * era + year_of_era doe) div 400 = era"
    by (intro div_between) simp_all
  from ys(1,2) have e2: "(400 * era + year_of_era doe) mod 400 = year_of_era doe"
    by (simp add: mod_pos_pos_trivial)
  from mf(1,2) have mp': "(if month_of_day z > 2 then month_of_day z - 3 else month_of_day z + 9) = mp"
    unfolding m by auto
  have z: "z + 719468 = 146097 * era + doe"
    by (simp add: era_def doe_def day_of_era_def)
  have "days_from_civil (year_of_day z) (month_of_day z) (date_of_day z) =
      era * 146097 + days_before_year (year_of_era doe) + (153 * mp + 2) div 5 +
      (doy - (153 * mp + 2) div 5 + 1) - 1 - 719468"
    unfolding days_from_civil_def y' e1 e2 mp' d ..
  also have "\<dots> = era * 146097 + (days_before_year (year_of_era doe) + doy) - 719468"
    by simp
  also have "\<dots> = z"
    using z ys(3) by (simp add: doy_def)
  finally show ?thesis .
qed


lemma length_pad [simp]: "length (pad w n) = w"
  by (induction w arbitrary: n) auto

lemma digit_value_digit:
  fixes k :: int
  assumes "0 \<le> k" "k \<le> 9"
  shows "digit_value (''0123456789'' ! nat k) = Some k"
proof -
  from assms have "k = 0 \<or> k = 1 \<or> k = 2 \<or> k = 3 \<or> k = 4 \<or> k = 5 \<or> k = 6 \<or> k = 7 \<or>
      k = 8 \<or> k = 9"
    by presburger
  then show ?thesis
    by (elim disjE) (simp_all add: digit_value_def)
qed

lemma digit_not_sign:
  fixes k :: int
  assumes "0 \<le> k" "k \<le> 9"
  shows "''0123456789'' ! nat k \<noteq> CHR ''+''" "''0123456789'' ! nat k \<noteq> CHR ''-''"
proof -
  from assms have "k = 0 \<or> k = 1 \<or> k = 2 \<or> k = 3 \<or> k = 4 \<or> k = 5 \<or> k = 6 \<or> k = 7 \<or>
      k = 8 \<or> k = 9"
    by presburger
  then show "''0123456789'' ! nat k \<noteq> CHR ''+''" "''0123456789'' ! nat k \<noteq> CHR ''-''"
    by (elim disjE; simp)+
qed

lemma mod_10_digit: "0 \<le> (n::int) mod 10" "n mod 10 \<le> 9"
proof -
  show "0 \<le> n mod 10" by simp
  have "n mod 10 < 10" by simp
  then show "n mod 10 \<le> 9" by simp
qed

lemma number_from_snoc:
  "number_from acc (xs @ [c]) =
     (case number_from acc xs of
        None \<Rightarrow> None
      | Some v \<Rightarrow> (case digit_value c of None \<Rightarrow> None | Some dv \<Rightarrow> Some (10 * v + dv)))"
  by (induction xs arbitrary: acc) (auto split: option.splits)

lemma number_from_pad:
  "0 \<le> n \<Longrightarrow> n < 10 ^ w \<Longrightarrow> number_from 0 (pad w n) = Some n"
proof (induction w arbitrary: n)
  case 0
  then show ?case by simp
next
  case (Suc w)
  from Suc.prems have "0 \<le> n div 10" by simp
  moreover from Suc.prems have "n div 10 < 10 ^ w"
    by (simp add: div_less_iff_less_mult mult.commute)
  ultimately have "number_from 0 (pad w (n div 10)) = Some (n div 10)"
    by (rule Suc.IH)
  then show ?case
    by (simp add: number_from_snoc digit_value_digit mod_10_digit)
qed

lemma hd_pad_not_sign:
  "0 < w \<Longrightarrow> hd (pad w n) \<noteq> CHR ''+'' \<and> hd (pad w n) \<noteq> CHR ''-''"
proof (induction w arbitrary: n)
  case 0
  then show ?case by simp
next
  case (Suc w)
  show ?case
  proof (cases "w = 0")
    case True
    then show ?thesis by (simp add: digit_not_sign mod_10_digit)
  next
    case False
    then have "pad w (n div 10) \<noteq> []" by (metis length_pad length_0_conv)
    with Suc.IH [of "n div 10"] False show ?thesis by simp
  qed
qed


lemma iso_rest_pads:
  assumes "0 \<le> m" "m < 100" "0 \<le> d" "d < 100" "0 \<le> h" "h < 100" "0 \<le> mi" "mi < 100"
    "0 \<le> se" "se < 100" "0 \<le> ms" "ms < 1000"
  shows "iso_rest y
           (''-'' @ pad 2 m @ ''-'' @ pad 2 d @ ''T'' @ pad 2 h @ '':'' @ pad 2 mi @ '':'' @
            pad 2 se @ ''.'' @ pad 3 ms @ ''Z'')
         = time_of_fields y m d h mi se ms"
  using assms by (simp add: iso_rest_def field_def nth_append number_from_pad)


lemma Date_parse_unsigned:
  "s \<noteq> [] \<Longrightarrow> hd s \<noteq> CHR ''+'' \<Longrightarrow> hd s \<noteq> CHR ''-'' \<Longrightarrow>
   Date_parse s = (case field s 0 4 of None \<Rightarrow> None | Some y \<Rightarrow> iso_rest y (drop 4 s))"
  by (cases s) (auto simp: Date_parse_def split: option.splits)

lemma Date_parse_year_text:
  assumes "- 999999 \<le> y" "y \<le> 999999"
  shows "Date_parse (year_text y @ r) = iso_rest y r"
proof (cases "0 \<le> y \<and> y \<le> 9999")
  case True
  then have n: "number_from 0 (pad 4 y) = Some y"
    by (intro number_from_pad) simp_all
  have ne: "pad 4 y \<noteq> []" by (metis length_pad length_0_conv zero_neq_numeral)
  then have "hd (pad 4 y @ r) = hd (pad 4 y)" by simp
  with hd_pad_not_sign [of 4 y]
  have h: "hd (pad 4 y @ r) \<noteq> CHR ''+''" "hd (pad 4 y @ r) \<noteq> CHR ''-''" by simp_all
  from ne have "pad 4 y @ r \<noteq> []" by simp
  from Date_parse_unsigned [OF this h] n True show ?thesis
    by (simp add: year_text_def field_def)
next
  case False
  then have "y \<noteq> 0" by auto
  with assms have a: "0 \<le> \<bar>y\<bar>" "\<bar>y\<bar> < 10 ^ 6" "\<bar>y\<bar> \<noteq> 0" by simp_all
  then have n: "number_from 0 (pad 6 \<bar>y\<bar>) = Some \<bar>y\<bar>"
    by (intro number_from_pad)
  from False n a show ?thesis
    by (simp add: year_text_def Date_parse_def field_def)
qed

lemma time_of_day_parts:
  fixes r :: int
  shows "r div 3600000 * 3600000 + r div 60000 mod 60 * 60000 + r div 1000 mod 60 * 1000 +
         r mod 1000 = r"
proof -
  have "r mod (60000 * 60) = 60000 * (r div 60000 mod 60) + r mod 60000"
    by (rule zmod_zmult2_eq) simp
  moreover have "r mod (1000 * 60) = 1000 * (r div 1000 mod 60) + r mod 1000"
    by (rule zmod_zmult2_eq) simp
  moreover have "r = 3600000 * (r div 3600000) + r mod 3600000"
    by simp
  ultimately show ?thesis by simp
qed

lemma time_parts:
  fixes t :: int
  shows "t div 86400000 * 86400000 + t mod 86400000 div 3600000 * 3600000 +
         t mod 86400000 div 60000 mod 60 * 60000 + t mod 86400000 div 1000 mod 60 * 1000 +
         t mod 1000 = t"
proof -
  have "t mod 86400000 mod 1000 = t mod 1000"
    by (rule mod_mod_cancel) simp
  moreover have "t = t div 86400000 * 86400000 + t mod 86400000"
    by simp
  ultimately show ?thesis
    using time_of_day_parts [of "t mod 86400000"] by linarith
qed


lemma civil_bounds:
  "1 \<le> month_of_day z" "month_of_day z \<le> 12" "1 \<le> date_of_day z" "date_of_day z \<le> 31"
proof -
  note eb = day_of_era_bounds [of z]
  note cf = century_facts [OF eb]
  note yf = cycle_facts [OF cf(3,4)]
  note mf = month_facts [OF yf(5,6)]
  from mf(1,2) show "1 \<le> month_of_day z" "month_of_day z \<le> 12"
    by (simp_all add: month_of_day_def)
  from mf(3,4) show "1 \<le> date_of_day z" "date_of_day z \<le> 31"
    by (simp_all add: date_of_day_def)
qed

lemma year_bounds:
  assumes "- 8640000000000000 \<le> t" "t \<le> 8640000000000000"
  shows "- 999999 \<le> year_of_day (t div 86400000)" "year_of_day (t div 86400000) \<le> 999999"
proof -
  define z where "z = t div 86400000"
  define era where "era = (z + 719468) div 146097"
  have "(- 8640000000000000) div 86400000 \<le> t div 86400000"
    using assms(1) by (rule zdiv_mono1) simp
  then have z1: "- 100000000 \<le> z" by (simp add: z_def)
  have "t div 86400000 \<le> 8640000000000000 div 86400000"
    using assms(2) by (rule zdiv_mono1) simp
  then have z2: "z \<le> 100000000" by (simp add: z_def)
  have "(- 100000000 + 719468) div 146097 \<le> (z + 719468) div 146097"
    using z1 by (intro zdiv_mono1) simp_all
  then have e1: "- 680 \<le> era" by (simp add: era_def)
  have "(z + 719468) div 146097 \<le> (100000000 + 719468) div 146097"
    using z2 by (intro zdiv_mono1) simp_all
  then have e2: "era \<le> 689" by (simp add: era_def)
  note ys = year_of_era_split [OF day_of_era_bounds [of z]]
  have "year_of_day z = year_of_era (day_of_era z) + era * 400 +
      (if month_of_day z \<le> 2 then 1 else 0)"
    by (simp add: year_of_day_def era_def)
  with ys(1,2) e1 e2 have "- 999999 \<le> year_of_day z \<and> year_of_day z \<le> 999999"
    by (simp split: if_splits)
  then show "- 999999 \<le> year_of_day (t div 86400000)" "year_of_day (t div 86400000) \<le> 999999"
    by (simp_all add: z_def)
qed

lemma clock_bounds:
  fixes t :: int
  shows "0 \<le> t mod 86400000 div 3600000" "t mod 86400000 div 3600000 < 24"
    "0 \<le> t mod 86400000 div 60000 mod 60" "t mod 86400000 div 60000 mod 60 < 60"
    "0 \<le> t mod 86400000 div 1000 mod 60" "t mod 86400000 div 1000 mod 60 < 60"
    "0 \<le> t mod 1000" "t mod 1000 < 1000"
proof -
  have r: "0 \<le> t mod 86400000" "t mod 86400000 < 86400000" by simp_all
  from r(1) show "0 \<le> t mod 86400000 div 3600000" by simp
  from r(2) have "t mod 86400000 \<le> 86399999" by simp
  then have "t mod 86400000 div 3600000 \<le> 86399999 div 3600000"
    by (rule zdiv_mono1) simp
  then show "t mod 86400000 div 3600000 < 24" by simp
  show "0 \<le> t mod 86400000 div 60000 mod 60" "t mod 86400000 div 60000 mod 60 < 60"
    "0 \<le> t mod 86400000 div 1000 mod 60" "t mod 86400000 div 1000 mod 60 < 60"
    "0 \<le> t mod 1000" "t mod 1000 < 1000"
    by simp_all
qed

lemma Date_parse_toISOString:
  assumes "- 8640000000000000 \<le> t" "t \<le> 8640000000000000"
  shows "Date_parse (toISOString t) = Some t"
proof -
  define z where "z = t div 86400000"
  define r where "r = t mod 86400000"
  note yb = year_bounds [OF assms, folded z_def]
  note cb = civil_bounds [of z]
  note kb = clock_bounds [of t, folded r_def]
  have "Date_parse (toISOString t) =
      iso_rest (year_of_day z)
        (''-'' @ pad 2 (month_of_day z) @ ''-'' @ pad 2 (date_of_day z) @ ''T'' @
         pad 2 (r div 3600000) @ '':'' @ pad 2 (r div 60000 mod 60) @ '':'' @
         pad 2 (r div 1000 mod 60) @ ''.'' @ pad 3 (t mod 1000) @ ''Z'')"
    unfolding toISOString_def z_def [symmetric] r_def [symmetric]
    by (rule Date_parse_year_text [OF yb])
  also have "\<dots> = time_of_fields (year_of_day z) (month_of_day z) (date_of_day z)
      (r div 3600000) (r div 60000 mod 60) (r div 1000 mod 60) (t mod 1000)"
    using cb kb by (intro iso_rest_pads) linarith+
  also have "\<dots> = TimeClip (z * 86400000 + r div 3600000 * 3600000 + r div 60000 mod 60 * 60000 +
      r div 1000 mod 60 * 1000 + t mod 1000)"
    using kb by (simp add: time_of_fields_def days_from_civil_inverse)
  also have "\<dots> = TimeClip t"
    using time_parts [of t] by (simp add: z_def r_def)
  also have "\<dots> = Some t"
    using assms by (simp add: TimeClip_def is_time_value_def)
  finally show ?thesis .
qed

section \<open>Chat context: lemmas\<close>

lemma filter_distinct_split:
  assumes "distinct (map f xs)" and "i \<in> f ` set xs"
  shows "\<exists>before s after. xs = before @ s # after \<and> f s = i \<and>
           filter (\<lambda>x. f x \<noteq> i) xs = before @ after"
proof -
  from assms(2) obtain s where "s \<in> set xs" and fs: "f s = i" by auto
  then obtain before after where xs: "xs = before @ s # after"
    by (auto dest: split_list)
  with assms(1) fs have "\<forall>x \<in> set before. f x \<noteq> i" and "\<forall>x \<in> set after. f x \<noteq> i"
    by (auto simp: image_iff)
  then have "filter (\<lambda>x. f x \<noteq> i) xs = before @ after"
    using xs fs by simp
  with xs fs show ?thesis by blast
qed

lemma sendMessage_begin_current:
  assumes "currentSession st = Some cur"
  shows "\<exists>p. sendMessage_begin P c st =
           (st\<lparr>currentSession := Some (updatedSession p), isTyping := True, loading := True,
               requests := requests st @ [sent p]\<rparr>, Some p) \<and>
         closure_currentSession p = cur \<and> closure_sessions p = sessions st \<and>
         closure_user p = user st \<and>
         id_ChatSession (updatedSession p) = id_ChatSession cur \<and>
         map content (messages (updatedSession p)) = map content (messages cur) @ [c] \<and>
         message (sent p) = c \<and> session_id (sent p) = id_ChatSession cur"
  using assms by (simp add: sendMessage_begin_def Let_def)

lemma sendMessage_settle_failure:
  "\<not> (\<exists>reply. r = Response True (Some reply)) \<Longrightarrow>
   sendMessage_settle P p r st =
     st\<lparr>toasts := toasts st @ [Toast ''Error'' ''Failed to send message. Please try again.'' True],
        currentSession := Some (closure_currentSession p), isTyping := False, loading := False\<rparr>"
  by (cases r) (auto simp: sendMessage_settle_def split: bool.splits option.splits)

lemma sendMessage_settle_success:
  "sendMessage_settle P p (Response True (Some reply)) st =
       st\<lparr>currentSession := Some (finalSession P p reply),
          sessions := map (\<lambda>s. if id_ChatSession s = id_ChatSession (closure_currentSession p)
                               then finalSession P p reply else s) (closure_sessions p),
          localStorage := saveSessions (closure_user p)
            (map (\<lambda>s. if id_ChatSession s = id_ChatSession (closure_currentSession p)
                      then finalSession P p reply else s) (closure_sessions p))
            (localStorage st),
          isTyping := False, loading := False\<rparr>"
  by (simp add: sendMessage_settle_def Let_def)

lemma sendMessage_interleaved_nothing:
  "sendMessage_interleaved P c (\<lambda>st. st) st = sendMessage P c st"
  by (simp add: sendMessage_interleaved_def sendMessage_def)

lemma finalSession_fields:
  "id_ChatSession (finalSession P p reply) = id_ChatSession (updatedSession p)"
  "map content (messages (finalSession P p reply)) =
     map content (messages (updatedSession p)) @ [reply]"
  by (simp_all add: finalSession_def)

lemma member_map_replace:
  "i \<in> f ` set xs \<Longrightarrow> f y = i \<Longrightarrow> i \<in> f ` set (map (\<lambda>s. if f s = i then y else s) xs)"
  by (induction xs) auto

lemma all_member_created: "current_is_member (createNewSession P st)"
  by (simp add: current_is_member_def createNewSession_def Let_def)

lemma begin_member:
  "current_is_member st \<Longrightarrow> current_is_member (fst (sendMessage_begin P c st))"
proof (cases "currentSession st")
  case None
  then show ?thesis by (simp add: sendMessage_begin_def all_member_created)
next
  case (Some cur)
  assume "current_is_member st"
  with Some show ?thesis
    by (simp add: sendMessage_begin_def Let_def current_is_member_def)
qed

lemma all_Some_map:
  "(\<forall>x \<in> set xs. f (g x) = Some x) \<Longrightarrow> all_Some (map (f \<circ> g) xs) = Some xs"
  by (induction xs) auto

lemma as_role_text: "as_role (Some (JStr (role_text r))) = Some r"
  by (cases r) (simp_all add: as_role_def role_text_def)

lemma Date_parse_roundtrip: "is_time_value t \<Longrightarrow> Date_parse (toISOString t) = Some t"
  unfolding is_time_value_def by (rule Date_parse_toISOString) simp_all

lemma Message_roundtrip:
  assumes "is_time_value (timestamp m)"
  shows "Message_of_JSON (Message_toJSON m) = Some m"
proof (cases "isTyping_Message m")
  case None
  with assms show ?thesis
    by (simp add: Message_of_JSON_def Message_toJSON_def has_only_keys_def as_string_def
        as_role_text new_Date_def as_optional_bool_def Date_parse_roundtrip)
next
  case (Some b)
  with assms show ?thesis
    by (simp add: Message_of_JSON_def Message_toJSON_def has_only_keys_def as_string_def
        as_role_text new_Date_def as_optional_bool_def Date_parse_roundtrip)
qed

lemma Messages_roundtrip:
  assumes "\<forall>m \<in> set ms. is_time_value (timestamp m)"
  shows "all_Some (map Message_of_JSON (map Message_toJSON ms)) = Some ms"
  using assms all_Some_map [of ms Message_of_JSON Message_toJSON]
  by (simp add: Message_roundtrip)

lemma ChatSession_roundtrip:
  assumes "\<forall>t \<in> set (createdAt s # updatedAt s # map timestamp (messages s)). is_time_value t"
  shows "ChatSession_of_JSON (ChatSession_toJSON s) = Some s"
proof -
  from assms have "all_Some (map Message_of_JSON (map Message_toJSON (messages s)))
      = Some (messages s)"
    by (intro Messages_roundtrip) simp
  with assms show ?thesis
    by (simp add: ChatSession_of_JSON_def ChatSession_toJSON_def has_only_keys_def as_string_def
        new_Date_def Date_parse_roundtrip)
qed

lemma sessions_roundtrip:
  assumes "\<forall>t \<in> set (dates_of ss). is_time_value t"
  shows "sessions_of_JSON (sessions_toJSON ss) = Some ss"
proof -
  from assms have "\<forall>s \<in> set ss. ChatSession_of_JSON (ChatSession_toJSON s) = Some s"
    by (auto simp: dates_of_def intro!: ChatSession_roundtrip)
  then have "all_Some (map (ChatSession_of_JSON \<circ> ChatSession_toJSON) ss) = Some ss"
    by (rule all_Some_map)
  then show ?thesis
    by (simp add: sessions_of_JSON_def sessions_toJSON_def)
qed

lemma Message_toJSON_no_throw: "\<not> message_throws (Message_toJSON m)"
  by (simp add: message_throws_def Message_toJSON_def)

lemma ChatSession_toJSON_no_throw: "\<not> session_throws (ChatSession_toJSON s)"
  by (simp add: session_throws_def ChatSession_toJSON_def list_ex_iff Message_toJSON_no_throw)

lemma sessions_toJSON_no_throw: "\<not> parsing_throws (sessions_toJSON ss)"
  by (simp add: parsing_throws_def sessions_toJSON_def list_ex_iff ChatSession_toJSON_no_throw)

lemma as_User_toJSON: "as_User (User_toJSON u) = Some (Some u)"
  by (cases "isGuest u")
    (simp_all add: as_User_def User_toJSON_def has_only_keys_def as_string_def
      as_optional_bool_def)


lemma as_User_any_order:
  assumes "User_toJSON u = JObj fs" and "distinct (map fst kvs)" and "set kvs = set fs"
  shows "as_User (JObj kvs) = Some (Some u)"
proof -
  from assms(1) have d: "distinct (map fst fs)"
    by (cases "isGuest u") (auto simp: User_toJSON_def)
  from assms(2) d assms(3) have m: "map_of kvs = map_of fs"
    by (simp add: map_of_inject_set)
  from assms(3) have "set (map fst kvs) = set (map fst fs)"
    by simp
  with assms(2) d have
    "has_only_keys [''id'', ''email'', ''name'', ''isGuest''] kvs =
     has_only_keys [''id'', ''email'', ''name'', ''isGuest''] fs"
    unfolding has_only_keys_def list_all_iff by blast
  with m have "as_User (JObj kvs) = as_User (JObj fs)"
    by (simp add: as_User_def)
  with assms(1) show ?thesis
    by (metis as_User_toJSON)
qed

lemma example_dates: "\<forall>t \<in> set (dates_of [blank_session, kyoto_session]). is_time_value t"
  by (simp add: dates_of_def blank_session_def kyoto_session_def is_time_value_def)

section \<open>Chat context: the claims\<close>

text \<open>
  C1: when a session is current and the request that \<^verbatim>\<open>sendMessage\<close> sends is rejected or
  answered with a response that is not ok, then the session shown between the two steps
  is the one with the user's message appended, and once the call has settled the current
  session is again the session of before the call, \<^verbatim>\<open>isTyping\<close> and \<^verbatim>\<open>loading\<close> are false,
  and the collection and the storage are as before (an error toast is added). Whatever
  state the second step meets, it sets the current session back to the captured one,
  clears both flags and leaves collection and storage alone.
\<close>

theorem sendMessage_failure_reverts:
  assumes "currentSession st = Some cur"
    and "sendMessage_begin P c st = (st1, Some p)"
    and "fetch P (sent p) = Rejected \<or> (\<exists>body. fetch P (sent p) = Response False body)"
  shows "currentSession st1 = Some (updatedSession p) \<and>
         map content (messages (updatedSession p)) = map content (messages cur) @ [c] \<and>
         requests st1 = requests st @ [sent p] \<and>
         currentSession (sendMessage P c st) = Some cur \<and>
         \<not> isTyping (sendMessage P c st) \<and>
         \<not> loading (sendMessage P c st) \<and>
         sessions (sendMessage P c st) = sessions st \<and>
         localStorage (sendMessage P c st) = localStorage st \<and>
         toasts (sendMessage P c st) =
           toasts st @ [Toast ''Error'' ''Failed to send message. Please try again.'' True] \<and>
         (\<forall>later.
            currentSession (sendMessage_settle P p (fetch P (sent p)) later) = Some cur \<and>
            \<not> isTyping (sendMessage_settle P p (fetch P (sent p)) later) \<and>
            \<not> loading (sendMessage_settle P p (fetch P (sent p)) later) \<and>
            sessions (sendMessage_settle P p (fetch P (sent p)) later) = sessions later \<and>
            localStorage (sendMessage_settle P p (fetch P (sent p)) later) = localStorage later)"
proof -
  from sendMessage_begin_current [OF assms(1), of P c] assms(2)
  have st1: "st1 = st\<lparr>currentSession := Some (updatedSession p), isTyping := True, loading := True,
               requests := requests st @ [sent p]\<rparr>"
    and p: "closure_currentSession p = cur"
      "map content (messages (updatedSession p)) = map content (messages cur) @ [c]"
    by auto
  have e: "sendMessage P c st = sendMessage_settle P p (fetch P (sent p)) st1"
    by (simp add: sendMessage_def assms(2))
  from assms(3) have "\<not> (\<exists>reply. fetch P (sent p) = Response True (Some reply))"
    by auto
  then have f: "sendMessage_settle P p (fetch P (sent p)) s =
      s\<lparr>toasts := toasts s @ [Toast ''Error'' ''Failed to send message. Please try again.'' True],
        currentSession := Some (closure_currentSession p), isTyping := False, loading := False\<rparr>"
    for s
    by (rule sendMessage_settle_failure)
  show ?thesis
    unfolding e f by (simp add: st1 p)
qed


theorem sendMessage_failure_reverts_witness:
  "currentSession (sendMessage (example_platform Rejected) ''And Nara?''
       (example_state (Some guest) (Some kyoto_session))) = Some kyoto_session \<and>
   \<not> isTyping (sendMessage (example_platform Rejected) ''And Nara?''
       (example_state (Some guest) (Some kyoto_session))) \<and>
   \<not> loading (sendMessage (example_platform Rejected) ''And Nara?''
       (example_state (Some guest) (Some kyoto_session))) \<and>
   sessions (sendMessage (example_platform Rejected) ''And Nara?''
       (example_state (Some guest) (Some kyoto_session))) = [blank_session, kyoto_session] \<and>
   currentSession (sendMessage (example_platform (Response False None)) ''And Nara?''
       (example_state (Some guest) (Some kyoto_session))) = Some kyoto_session"
proof -
  let ?st = "example_state (Some guest) (Some kyoto_session)"
  have cur: "currentSession ?st = Some kyoto_session"
    by (simp add: example_state_def)
  have ss: "sessions ?st = [blank_session, kyoto_session]"
    by (simp add: example_state_def)
  have r: "currentSession (sendMessage (example_platform a) ''And Nara?'' ?st) = Some kyoto_session \<and>
      \<not> isTyping (sendMessage (example_platform a) ''And Nara?'' ?st) \<and>
      \<not> loading (sendMessage (example_platform a) ''And Nara?'' ?st) \<and>
      sessions (sendMessage (example_platform a) ''And Nara?'' ?st) = sessions ?st"
    if "a = Rejected \<or> (\<exists>body. a = Response False body)" for a
  proof -
    from sendMessage_begin_current [OF cur, of "example_platform a" "''And Nara?''"]
    obtain st1 p where
      b: "sendMessage_begin (example_platform a) ''And Nara?'' ?st = (st1, Some p)"
      by blast
    have f: "fetch (example_platform a) (sent p) = Rejected \<or>
        (\<exists>body. fetch (example_platform a) (sent p) = Response False body)"
      using that by (simp add: example_platform_def)
    from sendMessage_failure_reverts [OF cur b f] show ?thesis by blast
  qed
  from r [of Rejected] r [of "Response False None"] show ?thesis
    unfolding ss by simp
qed

text \<open>
  The membership invariant and the operations run one after the other, each as a whole:
  the state of a provider that has just mounted has the invariant, and so has the state
  after the startup load (and after any load that meets no current session);
  \<^verbatim>\<open>createNewSession\<close> establishes it; \<^verbatim>\<open>selectSession\<close>, \<^verbatim>\<open>sendMessage\<close> (in the state
  between its two steps and in the state after it), \<^verbatim>\<open>deleteSession\<close> and
  \<^verbatim>\<open>clearCurrentChat\<close> keep it.
\<close>

lemma current_is_member_sequential:
  "current_is_member (mounted usr store) \<and>
   (\<forall>st'. useEffect_user (mounted usr store) = Some st' \<longrightarrow> current_is_member st') \<and>
   (\<forall>st'. currentSession st = None \<and> loadSessions st = Some st' \<longrightarrow> current_is_member st') \<and>
   current_is_member (createNewSession P st) \<and>
   (current_is_member st \<longrightarrow>
      current_is_member (selectSession i st) \<and>
      current_is_member (fst (sendMessage_begin P c st)) \<and>
      current_is_member (sendMessage P c st) \<and>
      current_is_member (deleteSession i st) \<and>
      current_is_member (clearCurrentChat P st))"
proof -
  have load: "current_is_member st'"
    if "currentSession st = None" "loadSessions st = Some st'" for st st'
    using that
    by (auto simp: loadSessions_def Let_def current_is_member_def
        split: if_splits option.splits stored.splits)
  have m: "current_is_member (mounted usr store)"
    by (simp add: current_is_member_def mounted_def)
  have eff: "current_is_member st'" if "useEffect_user (mounted usr store) = Some st'" for st'
  proof (cases "user (mounted usr store) \<noteq> None")
    case True
    with that have "loadSessions (mounted usr store) = Some st'"
      by (simp add: useEffect_user_def)
    moreover have "currentSession (mounted usr store) = None"
      by (simp add: mounted_def)
    ultimately show ?thesis by (rule load [rotated])
  next
    case False
    with that m show ?thesis by (simp add: useEffect_user_def)
  qed
  have sel: "current_is_member (selectSession i st)" if "current_is_member st"
  proof (cases "List.find (\<lambda>s. id_ChatSession s = i) (sessions st)")
    case None
    with that show ?thesis by (simp add: selectSession_def)
  next
    case (Some s)
    then have "s \<in> set (sessions st)"
      by (auto simp: find_Some_iff)
    with Some show ?thesis
      by (simp add: selectSession_def current_is_member_def)
  qed
  have send: "current_is_member (sendMessage P c st)" if "current_is_member st"
  proof (cases "currentSession st")
    case None
    then show ?thesis
      by (simp add: sendMessage_def sendMessage_begin_def all_member_created)
  next
    case (Some cur)
    with that have mem: "id_ChatSession cur \<in> id_ChatSession ` set (sessions st)"
      by (simp add: current_is_member_def)
    from sendMessage_begin_current [OF Some, of P c] obtain p where
      b: "sendMessage_begin P c st =
           (st\<lparr>currentSession := Some (updatedSession p), isTyping := True, loading := True,
               requests := requests st @ [sent p]\<rparr>, Some p)"
      and p: "closure_currentSession p = cur" "closure_sessions p = sessions st"
        "id_ChatSession (updatedSession p) = id_ChatSession cur"
      by blast
    show ?thesis
    proof (cases "\<exists>reply. fetch P (sent p) = Response True (Some reply)")
      case True
      then obtain reply where "fetch P (sent p) = Response True (Some reply)" by blast
      then have f: "sendMessage P c st =
          sendMessage_settle P p (Response True (Some reply)) (fst (sendMessage_begin P c st))"
        by (simp add: sendMessage_def b)
      have "id_ChatSession cur \<in> id_ChatSession `
              set (map (\<lambda>s. if id_ChatSession s = id_ChatSession cur
                             then finalSession P p reply else s)
                     (sessions st))"
        using mem by (rule member_map_replace) (simp add: finalSession_fields p)
      then show ?thesis
        unfolding current_is_member_def f sendMessage_settle_success
        by (simp add: finalSession_fields p del: set_map)
    next
      case False
      then show ?thesis
        using mem
        by (simp add: sendMessage_def b sendMessage_settle_failure current_is_member_def p)
    qed
  qed
  have del: "current_is_member (deleteSession i st)" if "current_is_member st"
  proof (cases "currentSession st")
    case None
    then show ?thesis by (simp add: deleteSession_def Let_def current_is_member_def)
  next
    case (Some cur)
    let ?rest = "filter (\<lambda>s. id_ChatSession s \<noteq> i) (sessions st)"
    show ?thesis
    proof (cases "id_ChatSession cur = i")
      case True
      have "?rest ! 0 \<in> set ?rest" if "?rest \<noteq> []"
        using that by (simp del: set_filter)
      with Some True show ?thesis
        by (simp add: deleteSession_def Let_def current_is_member_def del: set_filter)
    next
      case False
      from \<open>current_is_member st\<close> Some obtain x where
        "x \<in> set (sessions st)" "id_ChatSession x = id_ChatSession cur"
        by (auto simp: current_is_member_def)
      with False have "id_ChatSession cur \<in> id_ChatSession ` set ?rest"
        by (auto simp: image_iff)
      with Some False show ?thesis
        by (simp add: deleteSession_def Let_def current_is_member_def del: set_filter)
    qed
  qed
  have clear: "current_is_member (clearCurrentChat P st)" if "current_is_member st"
  proof (cases "currentSession st")
    case None
    with that show ?thesis by (simp add: clearCurrentChat_def)
  next
    case (Some cur)
    let ?cleared = "cur\<lparr>messages := [], title := ''New Trip Plan'', updatedAt := now P 10\<rparr>"
    from that Some have "id_ChatSession cur \<in> id_ChatSession ` set (sessions st)"
      by (simp add: current_is_member_def)
    then have "id_ChatSession cur \<in> id_ChatSession `
        set (map (\<lambda>s. if id_ChatSession s = id_ChatSession cur then ?cleared else s) (sessions st))"
      by (rule member_map_replace) simp
    with Some show ?thesis
      by (simp add: clearCurrentChat_def Let_def current_is_member_def del: set_map)
  qed
  show ?thesis
    using m eff load all_member_created sel begin_member send del clear by blast
qed


lemma current_is_member_sequential_example:
  "current_is_member (example_state (Some guest) (Some kyoto_session)) \<and>
   current_is_member
     (deleteSession ''session_1699999100000''
        (example_state (Some guest) (Some kyoto_session))) \<and>
   current_is_member
     (sendMessage (example_platform (Response True (Some ''Nara is close by.''))) ''And Nara?''
        (example_state (Some guest) (Some kyoto_session))) \<and>
   current_is_member
     (selectSession ''session_1699999900000'' (example_state (Some guest) (Some kyoto_session))) \<and>
   current_is_member
     (clearCurrentChat (example_platform Rejected) (example_state (Some guest) (Some kyoto_session)))"
proof -
  have m: "current_is_member (example_state (Some guest) (Some kyoto_session))"
    by (simp add: current_is_member_def example_state_def)
  from m
    current_is_member_sequential [where usr = "Some guest" and store = Map.empty
      and P = "example_platform Rejected"
      and st = "example_state (Some guest) (Some kyoto_session)"
      and i = "''session_1699999100000''" and c = "''And Nara?''"]
    current_is_member_sequential [where usr = "Some guest" and store = Map.empty
      and P = "example_platform (Response True (Some ''Nara is close by.''))"
      and st = "example_state (Some guest) (Some kyoto_session)"
      and i = "''session_1699999900000''" and c = "''And Nara?''"]
  show ?thesis by blast
qed

text \<open>
  C2 fails when a deletion comes between the two steps of a \<^verbatim>\<open>sendMessage\<close> whose request
  fails: the \<^verbatim>\<open>catch\<close> block sets the current session back to the session the call
  captured, which \<^verbatim>\<open>deleteSession\<close> has removed from the collection. The session about
  Kyoto is current and a message is sent; while the request is out the session is
  deleted; the request is rejected. The state before the call, the state after the first
  step and the state after the deletion have the invariant. The state after the
  rejection has the deleted session as its current session, its collection is the other
  session alone, and the invariant is broken.
\<close>

theorem sendMessage_revert_after_delete:
  "current_is_member (example_state (Some guest) (Some kyoto_session)) \<and>
   current_is_member
     (fst (sendMessage_begin (example_platform Rejected) ''And Nara?''
        (example_state (Some guest) (Some kyoto_session)))) \<and>
   current_is_member
     (deleteSession ''session_1699999100000''
        (fst (sendMessage_begin (example_platform Rejected) ''And Nara?''
           (example_state (Some guest) (Some kyoto_session))))) \<and>
   currentSession
     (sendMessage_interleaved (example_platform Rejected) ''And Nara?''
        (deleteSession ''session_1699999100000'')
        (example_state (Some guest) (Some kyoto_session)))
     = Some kyoto_session \<and>
   sessions
     (sendMessage_interleaved (example_platform Rejected) ''And Nara?''
        (deleteSession ''session_1699999100000'')
        (example_state (Some guest) (Some kyoto_session)))
     = [blank_session] \<and>
   \<not> current_is_member
     (sendMessage_interleaved (example_platform Rejected) ''And Nara?''
        (deleteSession ''session_1699999100000'')
        (example_state (Some guest) (Some kyoto_session)))"
proof -
  let ?P = "example_platform Rejected"
  let ?st = "example_state (Some guest) (Some kyoto_session)"
  let ?i = "''session_1699999100000''"
  have cur: "currentSession ?st = Some kyoto_session"
    by (simp add: example_state_def)
  have ids: "id_ChatSession kyoto_session = ?i" "id_ChatSession blank_session \<noteq> ?i"
    by (simp_all add: kyoto_session_def blank_session_def)
  have m0: "current_is_member ?st"
    by (simp add: current_is_member_def example_state_def)
  from sendMessage_begin_current [OF cur, of ?P "''And Nara?''"] obtain p where
    b: "sendMessage_begin ?P ''And Nara?'' ?st =
         (?st\<lparr>currentSession := Some (updatedSession p), isTyping := True, loading := True,
              requests := requests ?st @ [sent p]\<rparr>, Some p)"
    and p: "closure_currentSession p = kyoto_session"
      "id_ChatSession (updatedSession p) = id_ChatSession kyoto_session"
    by blast
  let ?st1 = "?st\<lparr>currentSession := Some (updatedSession p), isTyping := True, loading := True,
              requests := requests ?st @ [sent p]\<rparr>"
  have m1: "current_is_member (fst (sendMessage_begin ?P ''And Nara?'' ?st))"
    using m0 by (rule begin_member)
  have d: "sessions (deleteSession ?i ?st1) = [blank_session]"
    "currentSession (deleteSession ?i ?st1) = Some blank_session"
    by (simp_all add: deleteSession_def Let_def example_state_def p ids)
  then have m2: "current_is_member (deleteSession ?i (fst (sendMessage_begin ?P ''And Nara?'' ?st)))"
    by (simp add: b current_is_member_def)
  have f: "fetch ?P (sent p) = Rejected"
    by (simp add: example_platform_def)
  have r: "sendMessage_interleaved ?P ''And Nara?'' (deleteSession ?i) ?st =
      sendMessage_settle ?P p Rejected (deleteSession ?i ?st1)"
    by (simp add: sendMessage_interleaved_def b f)
  have c3: "currentSession (sendMessage_interleaved ?P ''And Nara?'' (deleteSession ?i) ?st)
      = Some kyoto_session"
    unfolding r by (simp add: sendMessage_settle_failure p)
  have s3: "sessions (sendMessage_interleaved ?P ''And Nara?'' (deleteSession ?i) ?st)
      = [blank_session]"
    unfolding r by (simp add: sendMessage_settle_failure d)
  from c3 s3 have m3:
    "\<not> current_is_member (sendMessage_interleaved ?P ''And Nara?'' (deleteSession ?i) ?st)"
    by (simp add: current_is_member_def ids ids(2) [symmetric])
  from m0 m1 m2 c3 s3 m3 show ?thesis
    by (intro conjI)
qed

text \<open>
  C3: when a user is active and every date of the collection is a time value, saving the
  collection and loading it gives the collection back, the sessions and messages in
  their order with their ids, titles, contents, roles and dates: the document written
  decodes to the collection, \<^verbatim>\<open>loadSessions\<close> on the state just saved sets it, and so does
  the startup load of a provider mounted on the saved storage, which makes the first
  session current.
\<close>

theorem save_load_roundtrip:
  assumes "user st = Some u"
    and "\<forall>t \<in> set (dates_of ss). is_time_value t"
  shows "sessions_of_JSON (sessions_toJSON ss) = Some ss \<and>
         loadSessions (st\<lparr>localStorage := saveSessions (user st) ss (localStorage st)\<rparr>) =
           Some (st\<lparr>localStorage := saveSessions (user st) ss (localStorage st),
                    sessions := ss,
                    currentSession :=
                      (case currentSession st of
                         Some cur \<Rightarrow> Some cur
                       | None \<Rightarrow> (case ss of [] \<Rightarrow> None | s # _ \<Rightarrow> Some s))\<rparr>) \<and>
         useEffect_user (mounted (Some u) (saveSessions (Some u) ss store)) =
           Some ((mounted (Some u) (saveSessions (Some u) ss store))
                   \<lparr>sessions := ss,
                    currentSession := (case ss of [] \<Rightarrow> None | s # _ \<Rightarrow> Some s)\<rparr>)"
proof -
  note rt = sessions_roundtrip [OF assms(2)]
  have load: "loadSessions st' =
      Some (st'\<lparr>sessions := ss,
                currentSession :=
                  (case currentSession st' of
                     Some cur \<Rightarrow> Some cur
                   | None \<Rightarrow> (case ss of [] \<Rightarrow> None | s # _ \<Rightarrow> Some s))\<rparr>)"
    if "user st' = Some u"
      "localStorage st' (sessions_key (id_User u)) = Some (Json_text (sessions_toJSON ss))"
    for st'
    using that rt
    by (cases ss; cases "currentSession st'")
      (simp_all add: loadSessions_def Let_def truthy_def sessions_toJSON_no_throw)
  have a: "loadSessions (st\<lparr>localStorage := saveSessions (user st) ss (localStorage st)\<rparr>) =
           Some (st\<lparr>localStorage := saveSessions (user st) ss (localStorage st),
                    sessions := ss,
                    currentSession :=
                      (case currentSession st of
                         Some cur \<Rightarrow> Some cur
                       | None \<Rightarrow> (case ss of [] \<Rightarrow> None | s # _ \<Rightarrow> Some s))\<rparr>)"
    by (subst load) (simp_all add: assms(1) saveSessions_def)
  have b: "useEffect_user (mounted (Some u) (saveSessions (Some u) ss store)) =
           Some ((mounted (Some u) (saveSessions (Some u) ss store))
                   \<lparr>sessions := ss,
                    currentSession := (case ss of [] \<Rightarrow> None | s # _ \<Rightarrow> Some s)\<rparr>)"
    unfolding useEffect_user_def
    by (subst load) (simp_all add: mounted_def saveSessions_def)
  from rt a b show ?thesis by blast
qed


theorem save_load_roundtrip_witness:
  "map_option sessions
     (useEffect_user
        (mounted (Some guest)
           (saveSessions (Some guest) [blank_session, kyoto_session]
              Map.empty)))
     = Some [blank_session, kyoto_session] \<and>
   map_option currentSession
     (useEffect_user
        (mounted (Some guest)
           (saveSessions (Some guest) [blank_session, kyoto_session]
              Map.empty)))
     = Some (Some blank_session) \<and>
   toISOString (createdAt kyoto_session) = ''2023-11-14T21:58:20.000Z''"
proof -
  have u: "user (example_state (Some guest) None) = Some guest"
    by (simp add: example_state_def)
  have iso: "toISOString (createdAt kyoto_session)
      = ''2023-11-14T21:58:20.000Z''"
    by code_simp
  from save_load_roundtrip [OF u example_dates, of Map.empty] iso
  show ?thesis by simp
qed

text \<open>
  C5: for an id of the collection, \<^verbatim>\<open>deleteSession\<close> leaves the sessions with another id, in
  their order (with distinct ids: the collection without the one matching session); the
  persistence write is applied to the remainder, so that with a user active the storage
  holds the document of the remainder under the user's key; if
  the current session had the id, the new current session is the first of the remainder,
  or none when the remainder is empty; otherwise the current session is unchanged.
\<close>

theorem deleteSession_correct:
  assumes "sessionId \<in> id_ChatSession ` set (sessions st)"
  shows "sessions (deleteSession sessionId st) =
           filter (\<lambda>s. id_ChatSession s \<noteq> sessionId) (sessions st) \<and>
         (distinct (map id_ChatSession (sessions st)) \<longrightarrow>
            (\<exists>before s after. sessions st = before @ s # after \<and> id_ChatSession s = sessionId \<and>
               sessions (deleteSession sessionId st) = before @ after)) \<and>
         localStorage (deleteSession sessionId st) =
           saveSessions (user st) (sessions (deleteSession sessionId st)) (localStorage st) \<and>
         (\<forall>u. user st = Some u \<longrightarrow>
            localStorage (deleteSession sessionId st) =
              (localStorage st)(sessions_key (id_User u) \<mapsto>
                 Json_text (sessions_toJSON (sessions (deleteSession sessionId st))))) \<and>
         (\<forall>cur. currentSession st = Some cur \<and> id_ChatSession cur = sessionId \<longrightarrow>
            currentSession (deleteSession sessionId st) =
              (case sessions (deleteSession sessionId st) of [] \<Rightarrow> None | s # _ \<Rightarrow> Some s)) \<and>
         (\<forall>cur. currentSession st = Some cur \<and> id_ChatSession cur \<noteq> sessionId \<longrightarrow>
            currentSession (deleteSession sessionId st) = Some cur) \<and>
         (currentSession st = None \<longrightarrow> currentSession (deleteSession sessionId st) = None)"
proof -
  have s: "sessions (deleteSession sessionId st) =
           filter (\<lambda>s. id_ChatSession s \<noteq> sessionId) (sessions st)"
    by (simp add: deleteSession_def Let_def)
  have d: "\<exists>before s after. sessions st = before @ s # after \<and> id_ChatSession s = sessionId \<and>
               sessions (deleteSession sessionId st) = before @ after"
    if "distinct (map id_ChatSession (sessions st))"
    unfolding s using that assms by (rule filter_distinct_split)
  have w: "localStorage (deleteSession sessionId st) =
           saveSessions (user st) (sessions (deleteSession sessionId st)) (localStorage st)"
    by (simp add: deleteSession_def Let_def)
  have p: "localStorage (deleteSession sessionId st) =
              (localStorage st)(sessions_key (id_User u) \<mapsto>
                 Json_text (sessions_toJSON (sessions (deleteSession sessionId st))))"
    if "user st = Some u" for u
    using that by (simp add: deleteSession_def Let_def saveSessions_def)
  have c1: "currentSession (deleteSession sessionId st) =
              (case sessions (deleteSession sessionId st) of [] \<Rightarrow> None | s # _ \<Rightarrow> Some s)"
    if "currentSession st = Some cur" "id_ChatSession cur = sessionId" for cur
    using that by (auto simp: deleteSession_def Let_def nth_Cons' split: list.splits)
  have c2: "currentSession (deleteSession sessionId st) = Some cur"
    if "currentSession st = Some cur" "id_ChatSession cur \<noteq> sessionId" for cur
    using that by (simp add: deleteSession_def Let_def)
  have c3: "currentSession (deleteSession sessionId st) = None" if "currentSession st = None"
    using that by (simp add: deleteSession_def Let_def)
  show ?thesis using s d w p c1 c2 c3 by blast
qed


theorem deleteSession_correct_witness:
  "sessions (deleteSession ''session_1699999100000''
       (example_state (Some guest) (Some kyoto_session))) = [blank_session] \<and>
   currentSession (deleteSession ''session_1699999100000''
       (example_state (Some guest) (Some kyoto_session))) = Some blank_session \<and>
   currentSession (deleteSession ''session_1699999900000''
       (example_state (Some guest) (Some kyoto_session))) = Some kyoto_session \<and>
   localStorage (deleteSession ''session_1699999100000''
       (example_state (Some guest) (Some kyoto_session))) ''trip_planner_sessions_guest_1699999000000''
     = Some (Json_text (sessions_toJSON [blank_session]))"
proof -
  let ?st = "example_state (Some guest) (Some kyoto_session)"
  let ?P = "example_platform Rejected"
  have ss: "sessions ?st = [blank_session, kyoto_session]"
    and cur: "currentSession ?st = Some kyoto_session"
    and u: "user ?st = Some guest"
    by (simp_all add: example_state_def)
  have k: "id_ChatSession kyoto_session = ''session_1699999100000''"
    and b: "id_ChatSession blank_session = ''session_1699999900000''"
    by (simp_all add: kyoto_session_def blank_session_def)
  have m1: "''session_1699999100000'' \<in> id_ChatSession ` set (sessions ?st)"
    and m2: "''session_1699999900000'' \<in> id_ChatSession ` set (sessions ?st)"
    by (simp_all add: ss k b)
  note d1 = deleteSession_correct [OF m1] and d2 = deleteSession_correct [OF m2]
  from d1 have s1: "sessions (deleteSession ''session_1699999100000'' ?st) = [blank_session]"
    by (simp add: ss k b)
  from d1 cur k have c1: "currentSession (deleteSession ''session_1699999100000'' ?st)
      = (case sessions (deleteSession ''session_1699999100000'' ?st) of
           [] \<Rightarrow> None | s # _ \<Rightarrow> Some s)"
    by blast
  from d2 cur k have c2: "currentSession (deleteSession ''session_1699999900000'' ?st)
      = Some kyoto_session"
    by auto
  from d1 u have "localStorage (deleteSession ''session_1699999100000'' ?st) =
      (localStorage ?st)(sessions_key (id_User guest) \<mapsto>
         Json_text (sessions_toJSON (sessions (deleteSession ''session_1699999100000'' ?st))))"
    by blast
  note stored = this [unfolded s1]
  have l: "localStorage (deleteSession ''session_1699999100000'' ?st)
      ''trip_planner_sessions_guest_1699999000000''
     = Some (Json_text (sessions_toJSON [blank_session]))"
    using stored by (simp add: sessions_key_def guest_def)
  from s1 c1 c2 l show ?thesis by simp
qed

text \<open>
  C9: with no current session, \<^verbatim>\<open>sendMessage\<close> does what \<^verbatim>\<open>createNewSession\<close> does and
  nothing more: there is no pending request, a new session without messages is put in
  front of the collection and made current, the sessions of before are untouched, the
  persistence write is applied to the new collection, so that with a user active the
  storage holds its document, and no request is sent and no flag is set.
\<close>

theorem sendMessage_no_current:
  assumes "currentSession st = None"
  shows "sendMessage P c st = createNewSession P st \<and>
         snd (sendMessage_begin P c st) = None \<and>
         (\<exists>newSession.
            sessions (sendMessage P c st) = newSession # sessions st \<and>
            currentSession (sendMessage P c st) = Some newSession \<and>
            messages newSession = []) \<and>
         localStorage (sendMessage P c st) =
           saveSessions (user st) (sessions (sendMessage P c st)) (localStorage st) \<and>
         (\<forall>u. user st = Some u \<longrightarrow>
            localStorage (sendMessage P c st) =
              (localStorage st)(sessions_key (id_User u) \<mapsto>
                 Json_text (sessions_toJSON (sessions (sendMessage P c st))))) \<and>
         requests (sendMessage P c st) = requests st \<and>
         isTyping (sendMessage P c st) = isTyping st \<and>
         loading (sendMessage P c st) = loading st"
proof -
  have b: "sendMessage_begin P c st = (createNewSession P st, None)"
    using assms by (simp add: sendMessage_begin_def)
  then have e: "sendMessage P c st = createNewSession P st"
    by (simp add: sendMessage_def)
  show ?thesis
    unfolding e b by (auto simp: createNewSession_def Let_def saveSessions_def)
qed


theorem sendMessage_no_current_witness:
  "sessions (sendMessage (example_platform Rejected) ''Plan a weekend in Lisbon''
       (example_state (Some guest) None))
     = [\<lparr>id_ChatSession = ''session_1700000000000'', title = ''New Trip Plan'', messages = [],
         createdAt = 1700000000001, updatedAt = 1700000000002\<rparr>,
        blank_session, kyoto_session] \<and>
   requests (sendMessage (example_platform Rejected) ''Plan a weekend in Lisbon''
       (example_state (Some guest) None)) = [] \<and>
   snd (sendMessage_begin (example_platform Rejected) ''Plan a weekend in Lisbon''
       (example_state (Some guest) None)) = None"
proof -
  let ?st = "example_state (Some guest) None"
  let ?P = "example_platform Rejected"
  have n: "currentSession ?st = None"
    by (simp add: example_state_def)
  have i: "String_of_int 1700000000000 = ''1700000000000''"
    by code_simp
  have c: "sessions (createNewSession ?P ?st)
     = [\<lparr>id_ChatSession = ''session_1700000000000'', title = ''New Trip Plan'', messages = [],
         createdAt = 1700000000001, updatedAt = 1700000000002\<rparr>,
        blank_session, kyoto_session]"
    by (simp add: createNewSession_def Let_def example_state_def example_platform_def i)
  have r: "requests ?st = []"
    by (simp add: example_state_def)
  note t = sendMessage_no_current [OF n, of ?P "''Plan a weekend in Lisbon''"]
  from t have e: "sendMessage ?P ''Plan a weekend in Lisbon'' ?st = createNewSession ?P ?st"
    by (rule conjunct1)
  from t have b: "snd (sendMessage_begin ?P ''Plan a weekend in Lisbon'' ?st) = None"
    by blast
  from t have q: "requests (sendMessage ?P ''Plan a weekend in Lisbon'' ?st) = requests ?st"
    by blast
  from c have "sessions (sendMessage ?P ''Plan a weekend in Lisbon'' ?st)
     = [\<lparr>id_ChatSession = ''session_1700000000000'', title = ''New Trip Plan'', messages = [],
         createdAt = 1700000000001, updatedAt = 1700000000002\<rparr>,
        blank_session, kyoto_session]"
    by (simp only: e)
  with b q r show ?thesis by simp
qed

text \<open>
  C10: with no user, \<^verbatim>\<open>createNewSession\<close>, \<^verbatim>\<open>sendMessage\<close> (whatever the answer),
  \<^verbatim>\<open>deleteSession\<close> and \<^verbatim>\<open>clearCurrentChat\<close> leave the storage as it is, under every key,
  while the collection in memory is updated: one session more, the answered session
  replaced, the sessions of the deleted id removed, the cleared session replaced.
\<close>

theorem no_user_no_persistence:
  assumes "user st = None"
  shows "localStorage (createNewSession P st) = localStorage st \<and>
         length (sessions (createNewSession P st)) = Suc (length (sessions st)) \<and>
         localStorage (sendMessage P c st) = localStorage st \<and>
         (\<forall>cur st1 p reply. currentSession st = Some cur \<and>
              sendMessage_begin P c st = (st1, Some p) \<and>
              fetch P (sent p) = Response True (Some reply) \<longrightarrow>
              (\<exists>finalSession.
                 map content (messages finalSession) = map content (messages cur) @ [c, reply] \<and>
                 currentSession (sendMessage P c st) = Some finalSession \<and>
                 sessions (sendMessage P c st) =
                   map (\<lambda>s. if id_ChatSession s = id_ChatSession cur then finalSession else s)
                     (sessions st))) \<and>
         localStorage (deleteSession i st) = localStorage st \<and>
         sessions (deleteSession i st) = filter (\<lambda>s. id_ChatSession s \<noteq> i) (sessions st) \<and>
         localStorage (clearCurrentChat P st) = localStorage st \<and>
         (\<forall>cur. currentSession st = Some cur \<longrightarrow>
              sessions (clearCurrentChat P st) =
                map (\<lambda>s. if id_ChatSession s = id_ChatSession cur
                         then cur\<lparr>messages := [], title := ''New Trip Plan'', updatedAt := now P 10\<rparr>
                         else s)
                  (sessions st))"
proof -
  have save: "saveSessions (user st) xs store = store" for xs store
    using assms by (simp add: saveSessions_def)
  have create: "localStorage (createNewSession P st) = localStorage st"
    "length (sessions (createNewSession P st)) = Suc (length (sessions st))"
    by (simp_all add: createNewSession_def Let_def save)
  have send: "localStorage (sendMessage P c st) = localStorage st"
  proof (cases "currentSession st")
    case None
    then show ?thesis
      by (simp add: sendMessage_def sendMessage_begin_def create)
  next
    case (Some cur)
    then show ?thesis
      by (simp add: sendMessage_def sendMessage_begin_def Let_def sendMessage_settle_def save
          split: fetch_result.splits bool.splits option.splits)
  qed
  have sent_ok: "\<exists>finalSession.
                 map content (messages finalSession) = map content (messages cur) @ [c, reply] \<and>
                 currentSession (sendMessage P c st) = Some finalSession \<and>
                 sessions (sendMessage P c st) =
                   map (\<lambda>s. if id_ChatSession s = id_ChatSession cur then finalSession else s)
                     (sessions st)"
    if "currentSession st = Some cur" "sendMessage_begin P c st = (st1, Some p)"
      "fetch P (sent p) = Response True (Some reply)" for cur st1 p reply
  proof -
    from sendMessage_begin_current [OF that(1), of P c] that(2)
    have p: "closure_currentSession p = cur" "closure_sessions p = sessions st"
        "map content (messages (updatedSession p)) = map content (messages cur) @ [c]"
      by auto
    from that(2,3) have "sendMessage P c st =
          sendMessage_settle P p (Response True (Some reply)) st1"
      by (simp add: sendMessage_def)
    then show ?thesis
      unfolding sendMessage_settle_success
      by (intro exI [of _ "finalSession P p reply"]) (simp add: finalSession_fields p)
  qed
  have del: "localStorage (deleteSession i st) = localStorage st"
    "sessions (deleteSession i st) = filter (\<lambda>s. id_ChatSession s \<noteq> i) (sessions st)"
    by (simp_all add: deleteSession_def Let_def save)
  have clear: "localStorage (clearCurrentChat P st) = localStorage st"
    by (simp add: clearCurrentChat_def Let_def save split: option.splits)
  have clear2: "sessions (clearCurrentChat P st) =
                map (\<lambda>s. if id_ChatSession s = id_ChatSession cur
                         then cur\<lparr>messages := [], title := ''New Trip Plan'', updatedAt := now P 10\<rparr>
                         else s)
                  (sessions st)" if "currentSession st = Some cur" for cur
    using that by (simp add: clearCurrentChat_def Let_def)
  show ?thesis
    using create send sent_ok del clear clear2 by blast
qed


theorem no_user_no_persistence_witness:
  "localStorage (createNewSession (example_platform Rejected) (example_state None (Some kyoto_session)))
     = Map.empty \<and>
   localStorage (deleteSession ''session_1699999100000''
       (example_state None (Some kyoto_session))) = Map.empty \<and>
   sessions (deleteSession ''session_1699999100000''
       (example_state None (Some kyoto_session))) = [blank_session] \<and>
   localStorage (clearCurrentChat (example_platform Rejected)
       (example_state None (Some kyoto_session))) = Map.empty \<and>
   localStorage (sendMessage (example_platform (Response True (Some ''Nara is close by.'')))
       ''And Nara?'' (example_state None (Some kyoto_session))) = Map.empty \<and>
   length (sessions (createNewSession (example_platform Rejected)
       (example_state None (Some kyoto_session)))) = 3"
proof -
  let ?st = "example_state None (Some kyoto_session)"
  have u: "user ?st = None"
    and l: "localStorage ?st = Map.empty"
    and ss: "sessions ?st = [blank_session, kyoto_session]"
    by (simp_all add: example_state_def)
  have ids: "id_ChatSession kyoto_session = ''session_1699999100000''"
    "id_ChatSession blank_session \<noteq> ''session_1699999100000''"
    by (simp_all add: kyoto_session_def blank_session_def)
  from no_user_no_persistence [OF u, where P = "example_platform Rejected"
        and c = "''And Nara?''" and i = "''session_1699999100000''"]
    no_user_no_persistence [OF u,
        where P = "example_platform (Response True (Some ''Nara is close by.''))"
        and c = "''And Nara?''" and i = "''session_1699999100000''"]
  show ?thesis
    unfolding l ss by (simp add: ids)
qed

section \<open>Auth context: the claim\<close>

text \<open>
  C8: \<^verbatim>\<open>checkExistingSession\<close>, an entry being present when it is stored and not the empty
  text. A guest entry that parses to a value of type \<^verbatim>\<open>User | null\<close> makes that value the
  user. With no guest entry present, a registered-user entry that parses to such a value
  makes that value the user. Such a value is every object with the properties of a user,
  in any order. With neither entry present the user is \<^verbatim>\<open>null\<close>. When the guest entry is
  present and does not parse, or no guest entry is present and the registered-user entry
  is and does not parse, both entries are removed and the user is \<^verbatim>\<open>null\<close>. Loading is
  over in every case. The only entries left are those that parse to a document that is
  not of type \<^verbatim>\<open>User | null\<close>: there, and only there, the model has no result.
\<close>

theorem checkExistingSession_cases:
  "(\<forall>j v. sessionStorage st ''trip_planner_guest_user'' = Some (Json_text j) \<and>
          as_User j = Some v \<longrightarrow>
      checkExistingSession st = Some (st\<lparr>auth_user := v, auth_loading := False\<rparr>)) \<and>
   (\<forall>j v. \<not> truthy (sessionStorage st ''trip_planner_guest_user'') \<and>
          auth_localStorage st ''trip_planner_user'' = Some (Json_text j) \<and>
          as_User j = Some v \<longrightarrow>
      checkExistingSession st = Some (st\<lparr>auth_user := v, auth_loading := False\<rparr>)) \<and>
   (\<forall>u fs kvs. User_toJSON u = JObj fs \<and> distinct (map fst kvs) \<and> set kvs = set fs \<longrightarrow>
      as_User (JObj kvs) = Some (Some u)) \<and>
   (\<not> truthy (sessionStorage st ''trip_planner_guest_user'') \<and>
    \<not> truthy (auth_localStorage st ''trip_planner_user'') \<longrightarrow>
      checkExistingSession st = Some (st\<lparr>auth_user := None, auth_loading := False\<rparr>)) \<and>
   ((\<exists>s. s \<noteq> [] \<and> sessionStorage st ''trip_planner_guest_user'' = Some (Other_text s)) \<or>
    (\<not> truthy (sessionStorage st ''trip_planner_guest_user'') \<and>
     (\<exists>s. s \<noteq> [] \<and> auth_localStorage st ''trip_planner_user'' = Some (Other_text s))) \<longrightarrow>
      checkExistingSession st =
        Some (st\<lparr>auth_localStorage := (auth_localStorage st)(''trip_planner_user'' := None),
                 sessionStorage := (sessionStorage st)(''trip_planner_guest_user'' := None),
                 auth_user := None,
                 auth_loading := False\<rparr>)) \<and>
   (checkExistingSession st = None \<longleftrightarrow>
      (\<exists>j. as_User j = None \<and>
         (sessionStorage st ''trip_planner_guest_user'' = Some (Json_text j) \<or>
          \<not> truthy (sessionStorage st ''trip_planner_guest_user'') \<and>
          auth_localStorage st ''trip_planner_user'' = Some (Json_text j))))"
proof -
  have guest:
    "\<forall>j v. sessionStorage st ''trip_planner_guest_user'' = Some (Json_text j) \<and>
          as_User j = Some v \<longrightarrow>
      checkExistingSession st = Some (st\<lparr>auth_user := v, auth_loading := False\<rparr>)"
    by (simp add: checkExistingSession_def truthy_def found_user_def)
  have regular:
    "\<forall>j v. \<not> truthy (sessionStorage st ''trip_planner_guest_user'') \<and>
          auth_localStorage st ''trip_planner_user'' = Some (Json_text j) \<and>
          as_User j = Some v \<longrightarrow>
      checkExistingSession st = Some (st\<lparr>auth_user := v, auth_loading := False\<rparr>)"
    by (simp add: checkExistingSession_def Let_def truthy_def found_user_def)
  have order:
    "\<forall>u fs kvs. User_toJSON u = JObj fs \<and> distinct (map fst kvs) \<and> set kvs = set fs \<longrightarrow>
      as_User (JObj kvs) = Some (Some u)"
    using as_User_any_order by blast
  have neither:
    "\<not> truthy (sessionStorage st ''trip_planner_guest_user'') \<and>
     \<not> truthy (auth_localStorage st ''trip_planner_user'') \<longrightarrow>
      checkExistingSession st = Some (st\<lparr>auth_user := None, auth_loading := False\<rparr>)"
    by (simp add: checkExistingSession_def Let_def)
  have corrupted:
    "(\<exists>s. s \<noteq> [] \<and> sessionStorage st ''trip_planner_guest_user'' = Some (Other_text s)) \<or>
     (\<not> truthy (sessionStorage st ''trip_planner_guest_user'') \<and>
      (\<exists>s. s \<noteq> [] \<and> auth_localStorage st ''trip_planner_user'' = Some (Other_text s))) \<longrightarrow>
      checkExistingSession st =
        Some (st\<lparr>auth_localStorage := (auth_localStorage st)(''trip_planner_user'' := None),
                 sessionStorage := (sessionStorage st)(''trip_planner_guest_user'' := None),
                 auth_user := None,
                 auth_loading := False\<rparr>)"
    by (auto simp: checkExistingSession_def Let_def truthy_def found_user_def clear_corrupted_def)
  have none: "checkExistingSession st = None \<longleftrightarrow>
      (\<exists>j. as_User j = None \<and>
         (sessionStorage st ''trip_planner_guest_user'' = Some (Json_text j) \<or>
          \<not> truthy (sessionStorage st ''trip_planner_guest_user'') \<and>
          auth_localStorage st ''trip_planner_user'' = Some (Json_text j)))"
    by (auto simp: checkExistingSession_def Let_def truthy_def found_user_def
        split: option.splits stored.splits)
  from guest regular order neither corrupted none show ?thesis
    by (intro conjI)
qed

theorem checkExistingSession_cases_witness:
  "map_option auth_user
     (checkExistingSession
        (example_auth (Some (Json_text (User_toJSON guest))) (Some (Other_text ''{oops''))))
     = Some (Some guest) \<and>
   map_option auth_user
     (checkExistingSession (example_auth None (Some (Json_text (User_toJSON guest)))))
     = Some (Some guest) \<and>
   map_option auth_user
     (checkExistingSession
        (example_auth None
           (Some (Json_text
              (JObj [(''id'', JStr ''42''), (''name'', JStr ''Ada''),
                     (''email'', JStr ''ada@example.com'')])))))
     = Some (Some \<lparr>id_User = ''42'', email = ''ada@example.com'', name = ''Ada'', isGuest = None\<rparr>) \<and>
   map_option auth_user (checkExistingSession (example_auth (Some (Json_text JNull)) None))
     = Some None \<and>
   map_option auth_user (checkExistingSession (example_auth None None)) = Some None \<and>
   map_option auth_user
     (checkExistingSession
        (example_auth (Some (Other_text ''{oops'')) (Some (Json_text (User_toJSON guest)))))
     = Some None \<and>
   map_option (\<lambda>st. auth_localStorage st ''trip_planner_user'')
     (checkExistingSession
        (example_auth (Some (Other_text ''{oops'')) (Some (Json_text (User_toJSON guest)))))
     = Some None \<and>
   map_option (\<lambda>st. sessionStorage st ''trip_planner_guest_user'')
     (checkExistingSession (example_auth None (Some (Other_text ''{oops''))))
     = Some None \<and>
   checkExistingSession (example_auth (Some (Json_text (JStr ''guest''))) None) = None"
proof -
  let ?g = "Some (Json_text (User_toJSON guest))"
  let ?bad = "Some (Other_text ''{oops'')"
  let ?ada = "\<lparr>id_User = ''42'', email = ''ada@example.com'', name = ''Ada'', isGuest = None\<rparr>"
  let ?doc = "JObj [(''id'', JStr ''42''), (''name'', JStr ''Ada''),
                     (''email'', JStr ''ada@example.com'')]"
  have 1: "sessionStorage (example_auth ?g ?bad) ''trip_planner_guest_user'' = ?g \<and>
      as_User (User_toJSON guest) = Some (Some guest)"
    by (simp add: example_auth_def as_User_toJSON)
  have 2: "\<not> truthy (sessionStorage (example_auth None ?g) ''trip_planner_guest_user'') \<and>
      auth_localStorage (example_auth None ?g) ''trip_planner_user'' = ?g \<and>
      as_User (User_toJSON guest) = Some (Some guest)"
    by (simp add: example_auth_def truthy_def as_User_toJSON)
  have "User_toJSON ?ada =
        JObj [(''id'', JStr ''42''), (''email'', JStr ''ada@example.com''), (''name'', JStr ''Ada'')] \<and>
      distinct (map fst [(''id'', JStr ''42''), (''name'', JStr ''Ada''),
                     (''email'', JStr ''ada@example.com'')]) \<and>
      set [(''id'', JStr ''42''), (''name'', JStr ''Ada''), (''email'', JStr ''ada@example.com'')] =
      set [(''id'', JStr ''42''), (''email'', JStr ''ada@example.com''), (''name'', JStr ''Ada'')]"
    by (auto simp: User_toJSON_def)
  with checkExistingSession_cases [of "example_auth None None"]
  have ada: "as_User ?doc = Some (Some ?ada)"
    by blast
  have 3: "\<not> truthy (sessionStorage (example_auth None (Some (Json_text ?doc)))
                ''trip_planner_guest_user'') \<and>
      auth_localStorage (example_auth None (Some (Json_text ?doc))) ''trip_planner_user''
        = Some (Json_text ?doc)"
    by (simp add: example_auth_def truthy_def)
  have 4: "sessionStorage (example_auth (Some (Json_text JNull)) None) ''trip_planner_guest_user''
        = Some (Json_text JNull) \<and> as_User JNull = Some None"
    by (simp add: example_auth_def as_User_def)
  have 5: "\<not> truthy (sessionStorage (example_auth None None) ''trip_planner_guest_user'') \<and>
      \<not> truthy (auth_localStorage (example_auth None None) ''trip_planner_user'')"
    by (simp add: example_auth_def truthy_def)
  have 6: "\<exists>s. s \<noteq> [] \<and>
      sessionStorage (example_auth ?bad ?g) ''trip_planner_guest_user'' = Some (Other_text s)"
    by (simp add: example_auth_def)
  have 7: "\<not> truthy (sessionStorage (example_auth None ?bad) ''trip_planner_guest_user'') \<and>
      (\<exists>s. s \<noteq> [] \<and>
         auth_localStorage (example_auth None ?bad) ''trip_planner_user'' = Some (Other_text s))"
    by (simp add: example_auth_def truthy_def)
  have 8: "as_User (JStr ''guest'') = None \<and>
      sessionStorage (example_auth (Some (Json_text (JStr ''guest''))) None)
        ''trip_planner_guest_user'' = Some (Json_text (JStr ''guest''))"
    by (simp add: example_auth_def as_User_def)
  from checkExistingSession_cases [of "example_auth ?g ?bad"] 1
  have a: "map_option auth_user (checkExistingSession (example_auth ?g ?bad)) = Some (Some guest)"
    by simp
  from checkExistingSession_cases [of "example_auth None ?g"] 2
  have b: "map_option auth_user (checkExistingSession (example_auth None ?g)) = Some (Some guest)"
    by simp
  from checkExistingSession_cases [of "example_auth None (Some (Json_text ?doc))"] 3 ada
  have c: "map_option auth_user (checkExistingSession (example_auth None (Some (Json_text ?doc))))
      = Some (Some ?ada)"
    by simp
  from checkExistingSession_cases [of "example_auth (Some (Json_text JNull)) None"] 4
  have d: "map_option auth_user (checkExistingSession (example_auth (Some (Json_text JNull)) None))
      = Some None"
    by simp
  from checkExistingSession_cases [of "example_auth None None"] 5
  have e: "map_option auth_user (checkExistingSession (example_auth None None)) = Some None"
    by simp
  from checkExistingSession_cases [of "example_auth ?bad ?g"] 6
  have f: "map_option auth_user (checkExistingSession (example_auth ?bad ?g)) = Some None"
    "map_option (\<lambda>st. auth_localStorage st ''trip_planner_user'')
       (checkExistingSession (example_auth ?bad ?g)) = Some None"
    by simp_all
  from checkExistingSession_cases [of "example_auth None ?bad"] 7
  have g: "map_option (\<lambda>st. sessionStorage st ''trip_planner_guest_user'')
       (checkExistingSession (example_auth None ?bad)) = Some None"
    by simp
  from checkExistingSession_cases [of "example_auth (Some (Json_text (JStr ''guest''))) None"] 8
  have h: "checkExistingSession (example_auth (Some (Json_text (JStr ''guest''))) None) = None"
    by blast
  from a b c d e f g h show ?thesis by simp
qed

end
